theory Spec2Isabelle
  imports Complex_Main "HOL-Library.AList"
begin

section \<open>JavaScript numbers\<close>

text \<open>
  A JavaScript number is an IEEE double. The model keeps the three special values and
  takes every finite double as the rational it denotes; arithmetic on finite values is
  exact (rounding is not modelled) and the two zeros are one value.
\<close>

datatype jsnum = NaN | NegInf | Fin rat | PosInf

text \<open>The relational operator \<open><\<close>: false as soon as one side is NaN.\<close>

fun js_lt :: "jsnum \<Rightarrow> jsnum \<Rightarrow> bool" where
  "js_lt NaN b = False"
| "js_lt NegInf b = (case b of Fin q \<Rightarrow> True | PosInf \<Rightarrow> True | _ \<Rightarrow> False)"
| "js_lt (Fin p) b = (case b of Fin q \<Rightarrow> p < q | PosInf \<Rightarrow> True | _ \<Rightarrow> False)"
| "js_lt PosInf b = False"

definition js_gt :: "jsnum \<Rightarrow> jsnum \<Rightarrow> bool" where
  "js_gt a b = js_lt b a"

definition Math_max :: "jsnum \<Rightarrow> jsnum \<Rightarrow> jsnum" where
  "Math_max a b = (if a = NaN \<or> b = NaN then NaN else if js_lt a b then b else a)"

definition Math_min :: "jsnum \<Rightarrow> jsnum \<Rightarrow> jsnum" where
  "Math_min a b = (if a = NaN \<or> b = NaN then NaN else if js_lt b a then b else a)"

fun js_add :: "jsnum \<Rightarrow> jsnum \<Rightarrow> jsnum" where
  "js_add (Fin p) (Fin q) = Fin (p + q)"
| "js_add NaN b = NaN"
| "js_add a NaN = NaN"
| "js_add PosInf NegInf = NaN"
| "js_add NegInf PosInf = NaN"
| "js_add PosInf b = PosInf"
| "js_add a PosInf = PosInf"
| "js_add NegInf b = NegInf"
| "js_add a NegInf = NegInf"

fun js_neg :: "jsnum \<Rightarrow> jsnum" where
  "js_neg NaN = NaN"
| "js_neg NegInf = PosInf"
| "js_neg (Fin p) = Fin (- p)"
| "js_neg PosInf = NegInf"

definition js_sub :: "jsnum \<Rightarrow> jsnum \<Rightarrow> jsnum" where
  "js_sub a b = js_add a (js_neg b)"

text \<open>The sign of a number, as \<open>-1\<close>, \<open>0\<close> or \<open>1\<close>; NaN has none.\<close>

fun js_sign :: "jsnum \<Rightarrow> int option" where
  "js_sign NaN = None"
| "js_sign NegInf = Some (- 1)"
| "js_sign (Fin p) = Some (if p < 0 then - 1 else if p = 0 then 0 else 1)"
| "js_sign PosInf = Some 1"

definition js_mul :: "jsnum \<Rightarrow> jsnum \<Rightarrow> jsnum" where
  "js_mul a b =
     (case (a, b) of
        (Fin p, Fin q) \<Rightarrow> Fin (p * q)
      | _ \<Rightarrow> (case (js_sign a, js_sign b) of
                (Some x, Some y) \<Rightarrow>
                  (if x * y = 0 then NaN else if 0 < x * y then PosInf else NegInf)
              | _ \<Rightarrow> NaN))"

text \<open>Division by a finite non-zero number (the only use in the program is \<open>volume / 100\<close>).\<close>

definition js_div :: "jsnum \<Rightarrow> rat \<Rightarrow> jsnum" where
  "js_div a d =
     (case a of
        Fin p \<Rightarrow> Fin (p / d)
      | NaN \<Rightarrow> NaN
      | PosInf \<Rightarrow> (if 0 < d then PosInf else NegInf)
      | NegInf \<Rightarrow> (if 0 < d then NegInf else PosInf))"

text \<open>A number is falsy when it is zero or NaN.\<close>

definition num_truthy :: "jsnum \<Rightarrow> bool" where
  "num_truthy a = (a \<noteq> NaN \<and> a \<noteq> Fin 0)"

text \<open>\<open>a || b\<close> on numbers.\<close>

definition js_or :: "jsnum \<Rightarrow> jsnum \<Rightarrow> jsnum" where
  "js_or a b = (if num_truthy a then a else b)"

text \<open>A finite number between two rational bounds.\<close>

definition between :: "rat \<Rightarrow> rat \<Rightarrow> jsnum \<Rightarrow> bool" where
  "between lo hi a = (case a of Fin q \<Rightarrow> lo \<le> q \<and> q \<le> hi | _ \<Rightarrow> False)"

definition is_finite :: "jsnum \<Rightarrow> bool" where
  "is_finite a = (case a of Fin q \<Rightarrow> True | _ \<Rightarrow> False)"


section \<open>JSON values\<close>

text \<open>
  The values \<open>JSON.parse\<close> returns. An object is the list of its own properties in
  property order; \<open>undefined\<close>, the result of reading a property that is not there, is
  \<open>None\<close> of an option.
\<close>

datatype json =
    JNull
  | JBool bool
  | JNum jsnum
  | JStr string
  | JArr "json list"
  | JObj "(string \<times> json) list"

datatype js_error = TypeError | SyntaxError

text \<open>
  \<open>value.key\<close> for the property names the program reads (none of them is defined on a
  prototype): reading from \<open>null\<close> throws, reading from a primitive or an array gives
  \<open>undefined\<close>.
\<close>

fun get_prop :: "json \<Rightarrow> string \<Rightarrow> js_error + json option" where
  "get_prop JNull k = Inl TypeError"
| "get_prop (JObj kv) k = Inr (map_of kv k)"
| "get_prop v k = Inr None"

text \<open>A property read on a value already known not to be \<open>null\<close> (an earlier read went
  through, or a truthiness test guards it).\<close>

definition read_prop :: "json \<Rightarrow> string \<Rightarrow> json option" where
  "read_prop v k = (case get_prop v k of Inr x \<Rightarrow> x | Inl e \<Rightarrow> None)"

fun truthy :: "json \<Rightarrow> bool" where
  "truthy JNull = False"
| "truthy (JBool b) = b"
| "truthy (JNum a) = num_truthy a"
| "truthy (JStr s) = (s \<noteq> [])"
| "truthy (JArr xs) = True"
| "truthy (JObj kv) = True"

text \<open>\<open>Boolean(value)\<close>, \<open>undefined\<close> included.\<close>

definition Boolean :: "json option \<Rightarrow> bool" where
  "Boolean v = (case v of None \<Rightarrow> False | Some x \<Rightarrow> truthy x)"

definition is_string :: "json option \<Rightarrow> bool" where
  "is_string v = (case v of Some (JStr s) \<Rightarrow> True | _ \<Rightarrow> False)"

definition is_number :: "json option \<Rightarrow> bool" where
  "is_number v = (case v of Some (JNum a) \<Rightarrow> True | _ \<Rightarrow> False)"

text \<open>
  What \<open>JSON.parse(JSON.stringify(v))\<close> gives back: a number that is not finite is
  written as \<open>null\<close>, everything else is written and read as it is.
\<close>

fun reparse :: "json \<Rightarrow> json" where
  "reparse JNull = JNull"
| "reparse (JBool b) = JBool b"
| "reparse (JNum a) = (if is_finite a then JNum a else JNull)"
| "reparse (JStr s) = JStr s"
| "reparse (JArr xs) = JArr (map reparse xs)"
| "reparse (JObj kv) = JObj (map (\<lambda>(k, v). (k, reparse v)) kv)"


section \<open>The persisted snapshot\<close>

datatype mode = Focus | Break

datatype ambient = Off | White | Rain | Forest

text \<open>\<open>AMBIENT_OPTIONS\<close>: the \<open>value\<close> string of each option, with the profile it names.\<close>

definition AMBIENT_OPTIONS :: "(string \<times> ambient) list" where
  "AMBIENT_OPTIONS =
     [(''off'', Off), (''white'', White), (''rain'', Rain), (''forest'', Forest)]"

definition mode_value :: "mode \<Rightarrow> string" where
  "mode_value m = (case m of Focus \<Rightarrow> ''focus'' | Break \<Rightarrow> ''break'')"

definition ambient_value :: "ambient \<Rightarrow> string" where
  "ambient_value a =
     (case a of Off \<Rightarrow> ''off'' | White \<Rightarrow> ''white'' | Rain \<Rightarrow> ''rain'' | Forest \<Rightarrow> ''forest'')"

record snapshot =
  focusMinutes :: jsnum
  breakMinutes :: jsnum
  mode :: mode
  secondsLeft :: jsnum
  completedSessions :: jsnum
  tasks :: "json list"
  ambient :: ambient
  volume :: jsnum

definition clampNumber :: "json option \<Rightarrow> jsnum \<Rightarrow> jsnum \<Rightarrow> jsnum \<Rightarrow> jsnum" where
  "clampNumber v mn mx fallback =
     (case v of
        Some (JNum a) \<Rightarrow> (if a = NaN then fallback else Math_min (Math_max a mn) mx)
      | _ \<Rightarrow> fallback)"

definition defaults :: snapshot where
  "defaults =
     \<lparr> focusMinutes = Fin 25, breakMinutes = Fin 5, mode = Focus,
       secondsLeft = js_mul (Fin 25) (Fin 60), completedSessions = Fin 0, tasks = [],
       ambient = Off, volume = Fin 40 \<rparr>"

text \<open>The filter on \<open>parsed.tasks\<close>: a truthy entry whose \<open>id\<close> and \<open>title\<close> are strings.\<close>

definition task_ok :: "json \<Rightarrow> bool" where
  "task_ok task =
     (truthy task \<and> is_string (read_prop task ''id'') \<and> is_string (read_prop task ''title''))"

text \<open>
  \<open>{ ...task, done: Boolean(task.done) }\<close>: the properties of the task in their order, with
  \<open>done\<close> overwritten where it stands or added last. Only objects pass \<open>task_ok\<close>.
\<close>

definition with_done :: "json \<Rightarrow> json" where
  "with_done task =
     (case task of
        JObj kv \<Rightarrow> JObj (AList.update ''done'' (JBool (Boolean (read_prop task ''done''))) kv)
      | _ \<Rightarrow> task)"

text \<open>
  The body of the \<open>try\<close> block of \<open>getInitialState\<close>, from the parsed value on. Its first
  property read, \<open>parsed.mode\<close>, throws when the value is \<open>null\<close>; once it has gone through,
  every later read goes through as well, and \<open>sanitized\<close> is the object returned.
\<close>

definition sanitized :: "json \<Rightarrow> snapshot" where
  "sanitized parsed =
     (let safeMode = (if read_prop parsed ''mode'' = Some (JStr ''break'') then Break else Focus);
          safeFocus = clampNumber (read_prop parsed ''focusMinutes'') (Fin 5) (Fin 120)
                        (focusMinutes defaults);
          safeBreak = clampNumber (read_prop parsed ''breakMinutes'') (Fin 1) (Fin 45)
                        (breakMinutes defaults);
          maxSeconds = js_mul (if safeMode = Focus then safeFocus else safeBreak) (Fin 60);
          safeTasks = (case read_prop parsed ''tasks'' of
                         Some (JArr xs) \<Rightarrow> map with_done (filter task_ok xs)
                       | _ \<Rightarrow> tasks defaults)
      in \<lparr> focusMinutes = safeFocus,
           breakMinutes = safeBreak,
           mode = safeMode,
           secondsLeft =
             clampNumber (read_prop parsed ''secondsLeft'') (Fin 0) maxSeconds maxSeconds,
           completedSessions =
             clampNumber (read_prop parsed ''completedSessions'') (Fin 0) (Fin 100000) (Fin 0),
           tasks = safeTasks,
           ambient = (case read_prop parsed ''ambient'' of
                        Some (JStr a) \<Rightarrow>
                          (case map_of AMBIENT_OPTIONS a of
                             Some p \<Rightarrow> p
                           | None \<Rightarrow> ambient defaults)
                      | _ \<Rightarrow> ambient defaults),
           volume =
             clampNumber (read_prop parsed ''volume'') (Fin 0) (Fin 100) (volume defaults) \<rparr>)"

definition sanitize :: "json \<Rightarrow> js_error + snapshot" where
  "sanitize parsed =
     (case get_prop parsed ''mode'' of
        Inl e \<Rightarrow> Inl e
      | Inr pmode \<Rightarrow> Inr (sanitized parsed))"

text \<open>
  What \<open>localStorage.getItem(STORAGE_KEY)\<close> holds: nothing (or the empty string), a text
  that \<open>JSON.parse\<close> rejects, or a text that parses to a value.
\<close>

datatype stored = Absent | Unparsable | Parsed json

definition JSON_parse :: "stored \<Rightarrow> js_error + json" where
  "JSON_parse raw = (case raw of Parsed v \<Rightarrow> Inr v | _ \<Rightarrow> Inl SyntaxError)"

definition getInitialState :: "stored \<Rightarrow> snapshot" where
  "getInitialState rawState =
     (if rawState = Absent then defaults
      else case JSON_parse rawState of
             Inl e \<Rightarrow> defaults
           | Inr parsed \<Rightarrow> (case sanitize parsed of Inl e \<Rightarrow> defaults | Inr s \<Rightarrow> s))"

text \<open>The save effect: the object it builds, and what the store then holds.\<close>

definition stateToStore :: "'a snapshot_scheme \<Rightarrow> json" where
  "stateToStore s =
     JObj [(''focusMinutes'', JNum (focusMinutes s)),
           (''breakMinutes'', JNum (breakMinutes s)),
           (''mode'', JStr (mode_value (mode s))),
           (''secondsLeft'', JNum (secondsLeft s)),
           (''completedSessions'', JNum (completedSessions s)),
           (''tasks'', JArr (tasks s)),
           (''ambient'', JStr (ambient_value (ambient s))),
           (''volume'', JNum (volume s))]"

definition save :: "'a snapshot_scheme \<Rightarrow> stored" where
  "save s = Parsed (reparse (stateToStore s))"

text \<open>The persisted fields of a state, as a snapshot.\<close>

definition snapshot_of :: "'a snapshot_scheme \<Rightarrow> snapshot" where
  "snapshot_of s =
     \<lparr> focusMinutes = focusMinutes s, breakMinutes = breakMinutes s, mode = mode s,
       secondsLeft = secondsLeft s, completedSessions = completedSessions s,
       tasks = tasks s, ambient = ambient s, volume = volume s \<rparr>"

text \<open>\<open>cycleDuration\<close>: the length in seconds of the current mode.\<close>

definition cycleDuration :: "'a snapshot_scheme \<Rightarrow> jsnum" where
  "cycleDuration s =
     (if mode s = Focus then js_mul (focusMinutes s) (Fin 60)
      else js_mul (breakMinutes s) (Fin 60))"

text \<open>A task as the snapshot schema has it: an object with a string \<open>id\<close>, a string
  \<open>title\<close> and a boolean \<open>done\<close>.\<close>

definition is_task :: "json \<Rightarrow> bool" where
  "is_task t =
     (case t of
        JObj kv \<Rightarrow>
          is_string (map_of kv ''id'') \<and> is_string (map_of kv ''title'') \<and>
          (case map_of kv ''done'' of Some (JBool b) \<Rightarrow> True | _ \<Rightarrow> False)
      | _ \<Rightarrow> False)"

text \<open>
  The invariants of the data model on a snapshot: the three ranges, the countdown between
  zero and the length of the current mode, a session count that is not negative, and
  well-formed tasks.
\<close>

definition invariants :: "'a snapshot_scheme \<Rightarrow> bool" where
  "invariants s =
     (between 5 120 (focusMinutes s) \<and>
      between 1 45 (breakMinutes s) \<and>
      between 0 100 (volume s) \<and>
      (case cycleDuration s of Fin d \<Rightarrow> between 0 d (secondsLeft s) | _ \<Rightarrow> False) \<and>
      (case completedSessions s of Fin c \<Rightarrow> 0 \<le> c | _ \<Rightarrow> False) \<and>
      list_all is_task (tasks s))"


section \<open>The timer\<close>

text \<open>
  The state of the component: the snapshot fields (each a \<open>useState\<close>), the running flag
  and the three refs that mirror mode and durations for the interval callback.
\<close>

record app = snapshot +
  isRunning :: bool
  modeRef :: mode
  focusRef :: jsnum
  breakRef :: jsnum

text \<open>The first render: state from the loaded snapshot, not running, refs from the state.\<close>

definition mount_app :: "snapshot \<Rightarrow> app" where
  "mount_app init =
     \<lparr> focusMinutes = focusMinutes init, breakMinutes = breakMinutes init, mode = mode init,
       secondsLeft = secondsLeft init, completedSessions = completedSessions init,
       tasks = tasks init, ambient = ambient init, volume = volume init,
       isRunning = False, modeRef = mode init, focusRef = focusMinutes init,
       breakRef = breakMinutes init \<rparr>"

text \<open>The three effects that copy mode and durations into the refs after a render.\<close>

definition sync_refs :: "app \<Rightarrow> app" where
  "sync_refs s = s\<lparr> modeRef := mode s, focusRef := focusMinutes s, breakRef := breakMinutes s \<rparr>"

text \<open>The callback of the one-second interval (the updater passed to \<open>setSecondsLeft\<close>).\<close>

definition interval_callback :: "app \<Rightarrow> app" where
  "interval_callback s =
     (let prev = secondsLeft s in
      if js_gt prev (Fin 1) then s\<lparr> secondsLeft := js_sub prev (Fin 1) \<rparr>
      else
        (let nextMode = (if modeRef s = Focus then Break else Focus);
             nextDuration = js_mul (if nextMode = Focus then focusRef s else breakRef s) (Fin 60);
             s1 = (if modeRef s = Focus
                   then s\<lparr> completedSessions := js_add (completedSessions s) (Fin 1) \<rparr>
                   else s)
         in s1\<lparr> modeRef := nextMode, mode := nextMode, secondsLeft := nextDuration \<rparr>))"

text \<open>The interval exists only while \<open>isRunning\<close>.\<close>

definition tick :: "app \<Rightarrow> app" where
  "tick s = (if isRunning s then interval_callback s else s)"

definition PRESETS :: "(jsnum \<times> jsnum) list" where
  "PRESETS = [(Fin 25, Fin 5), (Fin 50, Fin 10), (Fin 15, Fin 3)]"

definition handlePreset :: "jsnum \<Rightarrow> jsnum \<Rightarrow> app \<Rightarrow> app" where
  "handlePreset focus rest s =
     s\<lparr> isRunning := False, focusMinutes := focus, breakMinutes := rest, mode := Focus,
        secondsLeft := js_mul focus (Fin 60) \<rparr>"

definition handleToggleMode :: "mode \<Rightarrow> app \<Rightarrow> app" where
  "handleToggleMode nextMode s =
     s\<lparr> isRunning := False, mode := nextMode,
        secondsLeft :=
          js_mul (if nextMode = Focus then focusMinutes s else breakMinutes s) (Fin 60) \<rparr>"

definition handleResetTimer :: "app \<Rightarrow> app" where
  "handleResetTimer s =
     s\<lparr> isRunning := False, mode := Focus, secondsLeft := js_mul (focusMinutes s) (Fin 60) \<rparr>"

text \<open>The start/pause button.\<close>

definition toggleRunning :: "app \<Rightarrow> app" where
  "toggleRunning s = s\<lparr> isRunning := \<not> isRunning s \<rparr>"

text \<open>
  The two duration inputs; the argument is \<open>Number(event.target.value)\<close>.
\<close>

definition onFocusChange :: "jsnum \<Rightarrow> app \<Rightarrow> app" where
  "onFocusChange v s =
     (let nextFocus = Math_min (Math_max (js_or v (Fin 5)) (Fin 5)) (Fin 120);
          s1 = s\<lparr> focusMinutes := nextFocus \<rparr>
      in if \<not> isRunning s \<and> mode s = Focus
         then s1\<lparr> secondsLeft := js_mul nextFocus (Fin 60) \<rparr>
         else s1)"

definition onBreakChange :: "jsnum \<Rightarrow> app \<Rightarrow> app" where
  "onBreakChange v s =
     (let nextBreak = Math_min (Math_max (js_or v (Fin 1)) (Fin 1)) (Fin 45);
          s1 = s\<lparr> breakMinutes := nextBreak \<rparr>
      in if \<not> isRunning s \<and> mode s = Break
         then s1\<lparr> secondsLeft := js_mul nextBreak (Fin 60) \<rparr>
         else s1)"

text \<open>
  The commands of the timer. \<open>StartPause\<close> is the one button that starts when idle and
  pauses when running; \<open>ApplyPreset i\<close> is the button of the \<open>i\<close>-th preset. After each
  command the component renders and the ref effects run.
\<close>

datatype command =
    StartPause
  | Tick
  | SetMode mode
  | SetFocusDuration jsnum
  | SetBreakDuration jsnum
  | ApplyPreset nat
  | Reset

definition step :: "command \<Rightarrow> app \<Rightarrow> app" where
  "step c s =
     sync_refs
       (case c of
          StartPause \<Rightarrow> toggleRunning s
        | Tick \<Rightarrow> tick s
        | SetMode m \<Rightarrow> handleToggleMode m s
        | SetFocusDuration v \<Rightarrow> onFocusChange v s
        | SetBreakDuration v \<Rightarrow> onBreakChange v s
        | ApplyPreset i \<Rightarrow>
            (if i < length PRESETS
             then handlePreset (fst (PRESETS ! i)) (snd (PRESETS ! i)) s
             else s)
        | Reset \<Rightarrow> handleResetTimer s)"

fun run :: "command list \<Rightarrow> app \<Rightarrow> app" where
  "run [] s = s"
| "run (c # cs) s = run cs (step c s)"

text \<open>\<open>n\<close> ticks in a row.\<close>

fun ticks :: "nat \<Rightarrow> app \<Rightarrow> app" where
  "ticks 0 s = s"
| "ticks (Suc n) s = ticks n (step Tick s)"

text \<open>The countdown is between zero and the length of the current mode.\<close>

definition countdown_in_range :: "'a snapshot_scheme \<Rightarrow> bool" where
  "countdown_in_range s =
     (case cycleDuration s of Fin d \<Rightarrow> between 0 d (secondsLeft s) | _ \<Rightarrow> False)"



section \<open>The ambient sound\<close>

text \<open>
  The Web Audio objects the component creates live in a heap under fresh addresses; the
  connections between nodes are a list of edges. \<open>ctx\<close>, \<open>source\<close> and \<open>nodes\<close> are the
  three slots of \<open>audioRef.current\<close>. The device decides the sample rate and whether a new
  context starts suspended; \<open>rnd n\<close> is what the \<open>n\<close>-th call of \<open>Math.random\<close> returns.
  Calls of \<open>startAmbient\<close> that wait for \<open>ctx.resume()\<close> are kept, oldest first, with the
  profile and volume they captured.
\<close>

datatype ctx_state = Suspended | Running

datatype biquad_type = Lowpass | Highpass | Peaking

datatype target = ToNode nat | Destination

datatype play_state = Unstarted | Started | Stopped

datatype audio_obj =
    AudioBuffer nat "jsnum list"
  | BufferSourceNode "nat option" bool play_state
  | GainNode jsnum
  | BiquadFilterNode biquad_type jsnum jsnum jsnum

record audio =
  ctx :: "ctx_state option"
  source :: "nat option"
  nodes :: "nat list"
  heap :: "nat \<Rightarrow> audio_obj option"
  next_id :: nat
  edges :: "(nat \<times> target) list"
  pending :: "(ambient \<times> jsnum) list"
  random_calls :: nat
  rnd :: "nat \<Rightarrow> rat"
  sampleRate :: nat
  starts_suspended :: bool

definition audio_init :: "(nat \<Rightarrow> rat) \<Rightarrow> nat \<Rightarrow> bool \<Rightarrow> audio" where
  "audio_init r rate blocked =
     \<lparr> ctx = None, source = None, nodes = [], heap = (\<lambda>n. None), next_id = 0, edges = [],
       pending = [], random_calls = 0, rnd = r, sampleRate = rate,
       starts_suspended = blocked \<rparr>"

definition alloc :: "audio_obj \<Rightarrow> audio \<Rightarrow> nat \<times> audio" where
  "alloc obj w = (next_id w, w\<lparr> heap := (heap w)(next_id w \<mapsto> obj), next_id := Suc (next_id w) \<rparr>)"

definition connect :: "nat \<Rightarrow> target \<Rightarrow> audio \<Rightarrow> audio" where
  "connect a t w = w\<lparr> edges := edges w @ [(a, t)] \<rparr>"

text \<open>\<open>node.disconnect()\<close>: every outgoing connection of the node goes.\<close>

definition disconnect :: "nat \<Rightarrow> audio \<Rightarrow> audio" where
  "disconnect a w = w\<lparr> edges := filter (\<lambda>e. fst e \<noteq> a) (edges w) \<rparr>"

text \<open>\<open>source.stop()\<close> inside its \<open>try\<close>: a source that was never started throws, and the
  exception is dropped.\<close>

definition stop_source :: "nat \<Rightarrow> audio \<Rightarrow> audio" where
  "stop_source n w =
     (case heap w n of
        Some (BufferSourceNode b l Started) \<Rightarrow> w\<lparr> heap := (heap w)(n \<mapsto> BufferSourceNode b l Stopped) \<rparr>
      | _ \<Rightarrow> w)"

definition start_source :: "nat \<Rightarrow> audio \<Rightarrow> audio" where
  "start_source n w =
     (case heap w n of
        Some (BufferSourceNode b l Unstarted) \<Rightarrow> w\<lparr> heap := (heap w)(n \<mapsto> BufferSourceNode b l Started) \<rparr>
      | _ \<Rightarrow> w)"

definition stopAmbient :: "audio \<Rightarrow> audio" where
  "stopAmbient w =
     (case source w of
        None \<Rightarrow> w
      | Some src \<Rightarrow>
          (let w1 = stop_source src w;
               w2 = fold disconnect (nodes w1) w1
           in w2\<lparr> source := None, nodes := [] \<rparr>))"

definition Math_random :: "audio \<Rightarrow> jsnum \<times> audio" where
  "Math_random w = (Fin (rnd w (random_calls w)), w\<lparr> random_calls := Suc (random_calls w) \<rparr>)"

text \<open>\<open>channelData[i] = v\<close> on the channel of a buffer.\<close>

definition write_sample :: "nat \<Rightarrow> nat \<Rightarrow> jsnum \<Rightarrow> audio \<Rightarrow> audio" where
  "write_sample buf i v w =
     (case heap w buf of
        Some (AudioBuffer r xs) \<Rightarrow> w\<lparr> heap := (heap w)(buf \<mapsto> AudioBuffer r (xs[i := v])) \<rparr>
      | _ \<Rightarrow> w)"

text \<open>The loop that fills the buffer with \<open>Math.random() * 2 - 1\<close>.\<close>

function noise_loop :: "nat \<Rightarrow> nat \<Rightarrow> nat \<Rightarrow> audio \<Rightarrow> audio" where
  "noise_loop i frameCount buf w =
     (if i < frameCount
      then (let (r, w1) = Math_random w
            in noise_loop (i + 1) frameCount buf
                 (write_sample buf i (js_sub (js_mul r (Fin 2)) (Fin 1)) w1))
      else w)"
  by pat_completeness auto
termination
  by (relation "measure (\<lambda>(i, frameCount, buf, w). frameCount - i)") auto

definition white_chain :: "nat \<Rightarrow> nat \<Rightarrow> audio \<Rightarrow> audio" where
  "white_chain src gainNode w =
     (let w1 = connect src (ToNode gainNode) w;
          w2 = connect gainNode Destination w1
      in w2\<lparr> nodes := [src, gainNode] \<rparr>)"

definition rain_chain :: "nat \<Rightarrow> nat \<Rightarrow> audio \<Rightarrow> audio" where
  "rain_chain src gainNode w =
     (let (highPass, w1) = alloc (BiquadFilterNode Highpass (Fin 800) (Fin 1) (Fin 0)) w;
          (lowPass, w2) = alloc (BiquadFilterNode Lowpass (Fin 7000) (Fin 1) (Fin 0)) w1;
          w3 = connect src (ToNode highPass) w2;
          w4 = connect highPass (ToNode lowPass) w3;
          w5 = connect lowPass (ToNode gainNode) w4;
          w6 = connect gainNode Destination w5
      in w6\<lparr> nodes := [src, highPass, lowPass, gainNode] \<rparr>)"

definition forest_chain :: "nat \<Rightarrow> nat \<Rightarrow> audio \<Rightarrow> audio" where
  "forest_chain src gainNode w =
     (let (lowPass, w1) = alloc (BiquadFilterNode Lowpass (Fin 1200) (Fin 1) (Fin 0)) w;
          (peak, w2) = alloc (BiquadFilterNode Peaking (Fin 300) (Fin (9 / 10)) (Fin 2)) w1;
          w3 = connect src (ToNode lowPass) w2;
          w4 = connect lowPass (ToNode peak) w3;
          w5 = connect peak (ToNode gainNode) w4;
          w6 = connect gainNode Destination w5
      in w6\<lparr> nodes := [src, lowPass, peak, gainNode] \<rparr>)"

text \<open>
  \<open>startAmbient\<close> from \<open>stopAmbient()\<close> on, the part that runs after the context is known to
  run: the old graph is torn down, then the buffer, the source, the gain and the filters
  of the profile are made and connected, and the source starts.
\<close>

definition build_graph :: "ambient \<Rightarrow> jsnum \<Rightarrow> audio \<Rightarrow> audio" where
  "build_graph a v w0 =
     (let frameCount = sampleRate w0 * 2;
          (noiseBuffer, w1) = alloc (AudioBuffer (sampleRate w0) (replicate frameCount (Fin 0))) w0;
          w2 = noise_loop 0 frameCount noiseBuffer w1;
          (src, w3) = alloc (BufferSourceNode (Some noiseBuffer) True Unstarted) w2;
          (gainNode, w4) = alloc (GainNode (js_div v 100)) w3;
          w5 = (if a = White then white_chain src gainNode w4 else w4);
          w6 = (if a = Rain then rain_chain src gainNode w5 else w5);
          w7 = (if a = Forest then forest_chain src gainNode w6 else w6);
          w8 = start_source src w7
      in w8\<lparr> source := Some src \<rparr>)"

definition startAmbient_rest :: "ambient \<Rightarrow> jsnum \<Rightarrow> audio \<Rightarrow> audio" where
  "startAmbient_rest a v w = build_graph a v (stopAmbient w)"

text \<open>\<open>startAmbient\<close> with the profile and volume its closure holds.\<close>

definition startAmbient :: "ambient \<Rightarrow> jsnum \<Rightarrow> audio \<Rightarrow> audio" where
  "startAmbient a v w =
     (if a = Off then stopAmbient w
      else
        (let w1 = (case ctx w of
                     None \<Rightarrow> w\<lparr> ctx := Some (if starts_suspended w then Suspended else Running) \<rparr>
                   | Some c \<Rightarrow> w)
         in if ctx w1 = Some Suspended
            then w1\<lparr> pending := pending w1 @ [(a, v)] \<rparr>
            else startAmbient_rest a v w1))"

text \<open>The promise of \<open>ctx.resume()\<close> resolves: the context runs, the oldest waiting call goes on.\<close>

definition resume_settled :: "audio \<Rightarrow> audio" where
  "resume_settled w =
     (case pending w of
        [] \<Rightarrow> w
      | (a, v) # ps \<Rightarrow> startAmbient_rest a v (w\<lparr> pending := ps, ctx := Some Running \<rparr>))"

text \<open>
  The ambient effect. Its dependencies are \<open>ambient\<close> and \<open>startAmbient\<close>, and \<open>startAmbient\<close>
  is a new function whenever \<open>ambient\<close> or \<open>volume\<close> changes; so the effect runs again
  exactly when one of the two changes: first the cleanup the last run returned (none when
  the profile was off), then the body.
\<close>

definition effect_cleanup :: "ambient \<Rightarrow> audio \<Rightarrow> audio" where
  "effect_cleanup prev w = (if prev = Off then w else stopAmbient w)"

definition ambient_effect :: "ambient \<Rightarrow> jsnum \<Rightarrow> audio \<Rightarrow> audio" where
  "ambient_effect a v w = (if a = Off then stopAmbient w else startAmbient a v w)"

type_synonym page = "app \<times> audio"

text \<open>A click on an ambient chip: \<open>setAmbient(option.value)\<close>; no render when the state stays.\<close>

definition setAmbient :: "ambient \<Rightarrow> page \<Rightarrow> page" where
  "setAmbient a p =
     (let (s, w) = p in
      if a = ambient s then p
      else (s\<lparr> ambient := a \<rparr>, ambient_effect a (volume s) (effect_cleanup (ambient s) w)))"

text \<open>The slider: \<open>setVolume(Number(event.target.value))\<close>.\<close>

definition setVolume :: "jsnum \<Rightarrow> page \<Rightarrow> page" where
  "setVolume v p =
     (let (s, w) = p in
      if v = volume s then p
      else (s\<lparr> volume := v \<rparr>, ambient_effect (ambient s) v (effect_cleanup (ambient s) w)))"

datatype event = ClickAmbient ambient | ChangeVolume jsnum | ResumeSettled

definition fire :: "event \<Rightarrow> page \<Rightarrow> page" where
  "fire e p =
     (case e of
        ClickAmbient a \<Rightarrow> setAmbient a p
      | ChangeVolume v \<Rightarrow> setVolume v p
      | ResumeSettled \<Rightarrow> (fst p, resume_settled (snd p)))"

text \<open>The page after mounting: loaded state, and the first run of the ambient effect.\<close>

definition mount :: "stored \<Rightarrow> audio \<Rightarrow> page" where
  "mount raw w =
     (let s = mount_app (getInitialState raw)
      in (s, ambient_effect (ambient s) (volume s) w))"

text \<open>The connections into the output device, and the sources that play.\<close>

definition to_destination :: "audio \<Rightarrow> (nat \<times> target) list" where
  "to_destination w = filter (\<lambda>e. snd e = Destination) (edges w)"

definition is_playing :: "audio \<Rightarrow> nat \<Rightarrow> bool" where
  "is_playing w n = (case heap w n of Some (BufferSourceNode b l Started) \<Rightarrow> True | _ \<Rightarrow> False)"

definition playing :: "audio \<Rightarrow> nat list" where
  "playing w = filter (is_playing w) [0..<next_id w]"


text \<open>The nodes of the current graph, as the heap has them.\<close>

definition stages :: "audio \<Rightarrow> audio_obj option list" where
  "stages w = map (heap w) (nodes w)"



section \<open>Predicates on timer states\<close>

text \<open>The refs hold what the state holds, as they do once the ref effects have run.\<close>

definition synced :: "app \<Rightarrow> bool" where
  "synced s = (modeRef s = mode s \<and> focusRef s = focusMinutes s \<and> breakRef s = breakMinutes s)"



section \<open>Predicates on audio states\<close>

text \<open>One sample of the noise, from one result of \<open>Math.random\<close>; and the samples that \<open>n\<close>
  calls in a row give, the first of them call number \<open>start\<close>.\<close>

definition sample :: "rat \<Rightarrow> jsnum" where
  "sample r = js_sub (js_mul (Fin r) (Fin 2)) (Fin 1)"

definition noise :: "(nat \<Rightarrow> rat) \<Rightarrow> nat \<Rightarrow> nat \<Rightarrow> jsnum list" where
  "noise r start n = map (\<lambda>j. sample (r (start + j))) [0..<n]"

text \<open>The heap once buffer, source and gain of a new graph are in place.\<close>

definition base_heap :: "jsnum \<Rightarrow> audio \<Rightarrow> nat \<Rightarrow> audio_obj option" where
  "base_heap v w =
     (heap w)(next_id w \<mapsto>
                AudioBuffer (sampleRate w) (noise (rnd w) (random_calls w) (sampleRate w * 2)),
              Suc (next_id w) \<mapsto> BufferSourceNode (Some (next_id w)) True Started,
              Suc (Suc (next_id w)) \<mapsto> GainNode (js_div v 100))"

text \<open>
  What holds of the audio state between events: every connection leaves a node of the
  current graph, no graph means no nodes, at most one connection enters the output, only
  the current source plays, and addresses from \<open>next_id\<close> on are free.
\<close>

definition audio_ok :: "audio \<Rightarrow> bool" where
  "audio_ok w =
     (fst ` set (edges w) \<subseteq> set (nodes w) \<and>
      (source w = None \<longrightarrow> nodes w = []) \<and>
      length (to_destination w) \<le> 1 \<and>
      (\<forall>n. is_playing w n \<longrightarrow> source w = Some n) \<and>
      (\<forall>n\<in>set (nodes w). n < next_id w) \<and>
      (\<forall>n. source w = Some n \<longrightarrow> n < next_id w) \<and>
      (\<forall>n. next_id w \<le> n \<longrightarrow> heap w n = None))"

text \<open>Nothing connected and nothing playing.\<close>

definition quiet :: "audio \<Rightarrow> bool" where
  "quiet w =
     (source w = None \<and> nodes w = [] \<and> edges w = [] \<and> (\<forall>n. \<not> is_playing w n) \<and>
      (\<forall>n. next_id w \<le> n \<longrightarrow> heap w n = None))"

text \<open>A graph exists only on a context that runs.\<close>

definition ctx_ok :: "audio \<Rightarrow> bool" where
  "ctx_ok w = (source w \<noteq> None \<longrightarrow> ctx w = Some Running)"

text \<open>
  The page after mounting on a device (random source, sample rate, whether a new context
  starts suspended) with the given store content, and then the given events in order.
\<close>

definition session :: "stored \<Rightarrow> (nat \<Rightarrow> rat) \<Rightarrow> nat \<Rightarrow> bool \<Rightarrow> event list \<Rightarrow> page" where
  "session raw r rate blocked es = fold fire es (mount raw (audio_init r rate blocked))"


section \<open>Example values\<close>

text \<open>A snapshot in the middle of a break, with one task.\<close>

definition example_state :: snapshot where
  "example_state =
     \<lparr> focusMinutes = Fin 50, breakMinutes = Fin 10, mode = Break, secondsLeft = Fin 420,
       completedSessions = Fin 3,
       tasks = [JObj [(''id'', JStr ''17-42''), (''title'', JStr ''write report''),
                      (''done'', JBool True)]],
       ambient = Rain, volume = Fin 65 \<rparr>"


definition rain_session :: page where
  "rain_session = session Absent (\<lambda>n. 1 / 4) 2 False [ClickAmbient Rain]"

definition white_session :: page where
  "white_session = session Absent (\<lambda>n. 1 / 4) 2 False [ClickAmbient White]"

text \<open>
  A session on a device whose context starts suspended: rain is chosen, then off, and only
  then the wait for \<open>ctx.resume()\<close> ends, so the rain graph plays while the profile is off.
\<close>

definition ghost_session :: page where
  "ghost_session =
     session Absent (\<lambda>n. 1 / 4) 2 True [ClickAmbient Rain, ClickAmbient Off, ResumeSettled]"

text \<open>A stored object with an unknown ambient value and every number out of range.\<close>

definition damaged :: json where
  "damaged =
     JObj [(''ambient'', JStr ''disco''), (''focusMinutes'', JNum (Fin 200)),
           (''breakMinutes'', JNum (Fin 90)), (''secondsLeft'', JNum (Fin 99999)),
           (''completedSessions'', JNum (Fin (- 3))), (''volume'', JNum (Fin 150))]"


section \<open>Loading and saving\<close>

subsection \<open>Clamping\<close>

lemma clampNumber_between:
  assumes "lo \<le> hi" "between lo hi fb"
  shows "between lo hi (clampNumber v (Fin lo) (Fin hi) fb)"
proof (cases "\<exists>a. v = Some (JNum a) \<and> a \<noteq> NaN")
  case True
  then obtain a where a: "v = Some (JNum a)" "a \<noteq> NaN" by blast
  show ?thesis using assms a
    by (cases a) (auto simp: clampNumber_def Math_min_def Math_max_def between_def)
next
  case False
  then show ?thesis using assms
    by (auto simp: clampNumber_def split: option.splits json.splits)
qed

lemma clampNumber_above:
  "lo \<le> hi \<Longrightarrow> js_gt a (Fin hi) \<Longrightarrow> clampNumber (Some (JNum a)) (Fin lo) (Fin hi) fb = Fin hi"
  by (cases a) (auto simp: clampNumber_def Math_min_def Math_max_def js_gt_def)

lemma clampNumber_below:
  "lo \<le> hi \<Longrightarrow> js_lt a (Fin lo) \<Longrightarrow> clampNumber (Some (JNum a)) (Fin lo) (Fin hi) fb = Fin lo"
  by (cases a) (auto simp: clampNumber_def Math_min_def Math_max_def)

lemma clampNumber_fallback:
  "\<not> is_number v \<Longrightarrow> clampNumber v lo hi fb = fb"
  by (auto simp: clampNumber_def is_number_def split: option.splits json.splits)

lemma clampNumber_id:
  "between lo hi a \<Longrightarrow> clampNumber (Some (JNum a)) (Fin lo) (Fin hi) fb = a"
  by (cases a) (auto simp: clampNumber_def Math_min_def Math_max_def between_def)

lemma between_mul60:
  "between lo hi a \<Longrightarrow> 0 \<le> lo \<Longrightarrow> \<exists>d. js_mul a (Fin 60) = Fin d \<and> 0 \<le> d"
  by (cases a) (auto simp: between_def js_mul_def)

lemma between_finite: "between lo hi a \<Longrightarrow> is_finite a"
  by (cases a) (simp_all add: between_def is_finite_def)

subsection \<open>The paths through \<open>getInitialState\<close>\<close>

lemma getInitialState_Absent: "getInitialState Absent = defaults"
  by (simp add: getInitialState_def)

lemma getInitialState_Unparsable: "getInitialState Unparsable = defaults"
  by (simp add: getInitialState_def JSON_parse_def)

lemma getInitialState_null: "getInitialState (Parsed JNull) = defaults"
  by (simp add: getInitialState_def JSON_parse_def sanitize_def)

lemma getInitialState_Parsed:
  "v \<noteq> JNull \<Longrightarrow> getInitialState (Parsed v) = sanitized v"
  by (cases v) (simp_all add: getInitialState_def JSON_parse_def sanitize_def)

lemma load_Parsed_if:
  "getInitialState (Parsed v) = (if v = JNull then defaults else sanitized v)"
  by (simp add: getInitialState_null getInitialState_Parsed)

lemma defaults_sel [simp]:
  "focusMinutes defaults = Fin 25" "breakMinutes defaults = Fin 5" "mode defaults = Focus"
  "secondsLeft defaults = Fin 1500" "completedSessions defaults = Fin 0" "tasks defaults = []"
  "ambient defaults = Off" "volume defaults = Fin 40"
  by (simp_all add: defaults_def js_mul_def)

lemma read_prop_simps [simp]:
  "read_prop (JObj kv) k = map_of kv k"
  "read_prop JNull k = None" "read_prop (JBool b) k = None" "read_prop (JNum a) k = None"
  "read_prop (JStr s) k = None" "read_prop (JArr xs) k = None"
  by (simp_all add: read_prop_def)

lemma sanitized_sel:
  "focusMinutes (sanitized v) = clampNumber (read_prop v ''focusMinutes'') (Fin 5) (Fin 120) (Fin 25)"
  "breakMinutes (sanitized v) = clampNumber (read_prop v ''breakMinutes'') (Fin 1) (Fin 45) (Fin 5)"
  "mode (sanitized v) = (if read_prop v ''mode'' = Some (JStr ''break'') then Break else Focus)"
  "secondsLeft (sanitized v) =
     clampNumber (read_prop v ''secondsLeft'') (Fin 0)
       (cycleDuration (sanitized v)) (cycleDuration (sanitized v))"
  "completedSessions (sanitized v) =
     clampNumber (read_prop v ''completedSessions'') (Fin 0) (Fin 100000) (Fin 0)"
  "volume (sanitized v) = clampNumber (read_prop v ''volume'') (Fin 0) (Fin 100) (Fin 40)"
  by (simp_all add: sanitized_def Let_def cycleDuration_def)

lemma sanitized_tasks:
  "tasks (sanitized v) =
     (case read_prop v ''tasks'' of
        Some (JArr xs) \<Rightarrow> map with_done (filter task_ok xs)
      | _ \<Rightarrow> [])"
  by (simp add: sanitized_def Let_def split: option.splits json.splits)

lemma sanitized_ambient:
  "ambient (sanitized v) =
     (case read_prop v ''ambient'' of
        Some (JStr a) \<Rightarrow> (case map_of AMBIENT_OPTIONS a of Some p \<Rightarrow> p | None \<Rightarrow> Off)
      | _ \<Rightarrow> Off)"
  by (simp add: sanitized_def Let_def split: option.splits json.splits)

lemma sanitized_non_object:
  "(\<forall>kv. v \<noteq> JObj kv) \<Longrightarrow> v \<noteq> JNull \<Longrightarrow> sanitized v = defaults"
  by (cases v) (simp_all add: sanitized_def defaults_def clampNumber_def js_mul_def)

subsection \<open>Tasks\<close>

lemma task_ok_with_done: "task_ok t \<Longrightarrow> is_task (with_done t)"
  by (cases t)
     (auto simp: task_ok_def is_task_def with_done_def is_string_def update_conv'
           split: option.splits json.splits)

lemma is_task_fixed: "is_task t \<Longrightarrow> task_ok t \<and> with_done t = t"
  by (cases t)
     (auto simp: task_ok_def is_task_def with_done_def is_string_def Boolean_def update_triv
           split: option.splits json.splits)

lemma tasks_fixed: "list_all is_task ts \<Longrightarrow> map with_done (filter task_ok ts) = ts"
  by (induction ts) (simp_all add: is_task_fixed)

lemma map_reparse_id: "list_all (\<lambda>t. reparse t = t) ts \<Longrightarrow> map reparse ts = ts"
  by (induction ts) simp_all

lemma ambient_value_lookup: "map_of AMBIENT_OPTIONS (ambient_value a) = Some a"
  by (cases a) (simp_all add: AMBIENT_OPTIONS_def ambient_value_def)

lemma ambient_lookup_value: "map_of AMBIENT_OPTIONS x = Some p \<Longrightarrow> x = ambient_value p"
  by (auto simp: AMBIENT_OPTIONS_def ambient_value_def split: if_splits)

subsection \<open>What a loaded snapshot satisfies\<close>

lemma cycleDuration_sanitized: "\<exists>d. cycleDuration (sanitized v) = Fin d \<and> 0 \<le> d"
proof -
  have f: "between 5 120 (focusMinutes (sanitized v))"
    unfolding sanitized_sel by (rule clampNumber_between) (simp_all add: between_def)
  have b: "between 1 45 (breakMinutes (sanitized v))"
    unfolding sanitized_sel by (rule clampNumber_between) (simp_all add: between_def)
  show ?thesis
    using between_mul60[OF f] between_mul60[OF b] by (auto simp: cycleDuration_def)
qed

lemma invariants_sanitized: "invariants (sanitized v)"
proof -
  obtain d where d: "cycleDuration (sanitized v) = Fin d" "0 \<le> d"
    using cycleDuration_sanitized by blast
  have sl: "between 0 d (secondsLeft (sanitized v))"
    unfolding sanitized_sel(4) d(1)
    by (rule clampNumber_between) (simp_all add: between_def d(2))
  have cs: "between 0 100000 (completedSessions (sanitized v))"
    unfolding sanitized_sel by (rule clampNumber_between) (simp_all add: between_def)
  have f: "between 5 120 (focusMinutes (sanitized v))"
    unfolding sanitized_sel by (rule clampNumber_between) (simp_all add: between_def)
  have b: "between 1 45 (breakMinutes (sanitized v))"
    unfolding sanitized_sel by (rule clampNumber_between) (simp_all add: between_def)
  have vl: "between 0 100 (volume (sanitized v))"
    unfolding sanitized_sel by (rule clampNumber_between) (simp_all add: between_def)
  have ts: "list_all is_task (tasks (sanitized v))"
    by (auto simp: sanitized_tasks list_all_iff task_ok_with_done
             split: option.splits json.splits)
  show ?thesis
    unfolding invariants_def using d sl cs ts f b vl
    by (auto simp: between_def split: jsnum.splits)
qed

lemma invariants_defaults: "invariants defaults"
  by (simp add: invariants_def between_def cycleDuration_def js_mul_def)

lemma invariants_loaded: "invariants (getInitialState raw)"
proof (cases raw)
  case (Parsed v)
  then show ?thesis
    by (cases "v = JNull")
       (simp_all add: getInitialState_null getInitialState_Parsed invariants_sanitized
          invariants_defaults)
qed (simp_all add: getInitialState_Absent getInitialState_Unparsable invariants_defaults)

text \<open>
  Claim C5. Whatever the store holds, loading returns a snapshot (a \<open>null\<close> value, on which
  the first property read throws, and a text that does not parse end in the \<open>catch\<close>
  branch), and the snapshot satisfies the invariants of the data model: focus minutes in
  \<open>[5, 120]\<close>, break minutes in \<open>[1, 45]\<close>, volume in \<open>[0, 100]\<close>, and the countdown between
  zero and the length of the sanitized mode computed from the sanitized durations. The
  invariants are ranges: a number that is not whole stays as it is (see
  \<open>load_keeps_fraction\<close> below).
\<close>

theorem load_invariants: "invariants (getInitialState raw)"
  by (rule invariants_loaded)

lemma load_keeps_fraction:
  "focusMinutes (getInitialState (Parsed (JObj [(''focusMinutes'', JNum (Fin (51 / 2)))])))
     = Fin (51 / 2)"
  by (simp add: getInitialState_Parsed sanitized_sel clampNumber_def Math_min_def Math_max_def)



text \<open>
  Claim C4, as amended. A snapshot that satisfies the invariants, whose tasks hold only
  values JSON can write, and whose session count is at most 100000, comes back from the
  store as it went in. (The running flag and the refs are not part of what is saved.)
\<close>

theorem save_load_roundtrip:
  assumes inv: "invariants s"
    and safe: "list_all (\<lambda>t. reparse t = t) (tasks s)"
    and cap: "between 0 100000 (completedSessions s)"
  shows "getInitialState (save s) = snapshot_of s"
proof -
  from inv have f: "between 5 120 (focusMinutes s)" and b: "between 1 45 (breakMinutes s)"
    and vl: "between 0 100 (volume s)" and ts: "list_all is_task (tasks s)"
    by (simp_all add: invariants_def)
  from inv obtain d where d: "cycleDuration s = Fin d" "between 0 d (secondsLeft s)"
    by (auto simp: invariants_def split: jsnum.splits)
  let ?v = "reparse (stateToStore s)"
  have v: "?v = JObj [(''focusMinutes'', JNum (focusMinutes s)),
           (''breakMinutes'', JNum (breakMinutes s)),
           (''mode'', JStr (mode_value (mode s))),
           (''secondsLeft'', JNum (secondsLeft s)),
           (''completedSessions'', JNum (completedSessions s)),
           (''tasks'', JArr (tasks s)),
           (''ambient'', JStr (ambient_value (ambient s))),
           (''volume'', JNum (volume s))]"
    using between_finite[OF f] between_finite[OF b] between_finite[OF vl]
      between_finite[OF d(2)] between_finite[OF cap] map_reparse_id[OF safe]
    by (simp add: stateToStore_def)
  have nn: "?v \<noteq> JNull" by (simp add: v)
  have m: "mode (sanitized ?v) = mode s"
    by (cases "mode s") (simp_all add: sanitized_sel v mode_value_def)
  have fm: "focusMinutes (sanitized ?v) = focusMinutes s"
    by (simp add: sanitized_sel v clampNumber_id[OF f])
  have bm: "breakMinutes (sanitized ?v) = breakMinutes s"
    by (simp add: sanitized_sel v clampNumber_id[OF b])
  have cd: "cycleDuration (sanitized ?v) = Fin d"
    using d(1) by (auto simp: cycleDuration_def m fm bm split: if_splits)
  have sl: "secondsLeft (sanitized ?v) = secondsLeft s"
    unfolding sanitized_sel(4) cd by (simp add: v clampNumber_id[OF d(2)])
  have cs: "completedSessions (sanitized ?v) = completedSessions s"
    by (simp add: sanitized_sel v clampNumber_id[OF cap])
  have vo: "volume (sanitized ?v) = volume s"
    by (simp add: sanitized_sel v clampNumber_id[OF vl])
  have tk: "tasks (sanitized ?v) = tasks s"
    by (simp add: sanitized_tasks v tasks_fixed[OF ts])
  have am: "ambient (sanitized ?v) = ambient s"
    by (simp add: sanitized_ambient v ambient_value_lookup)
  have "sanitized ?v = snapshot_of s"
    by (rule snapshot.equality) (simp_all add: snapshot_of_def m fm bm sl cs vo tk am)
  then show ?thesis
    by (simp add: save_def getInitialState_Parsed[OF nn])
qed

theorem save_load_roundtrip_witness:
  "invariants example_state \<and> getInitialState (save example_state) = example_state"
proof -
  have 1: "invariants example_state"
    by (simp add: example_state_def invariants_def between_def cycleDuration_def js_mul_def
        is_task_def is_string_def)
  have 2: "list_all (\<lambda>t. reparse t = t) (tasks example_state)"
    by (simp add: example_state_def is_finite_def)
  have 3: "between 0 100000 (completedSessions example_state)"
    by (simp add: example_state_def between_def)
  have 4: "snapshot_of example_state = example_state"
    by (simp add: snapshot_of_def)
  from save_load_roundtrip[OF 1 2 3] 1 4 show ?thesis by simp
qed

text \<open>
  The claim as stated fails: the default snapshot with 100001 completed sessions satisfies
  the invariants and loads with 100000.
\<close>

theorem roundtrip_counterexample:
  "invariants (defaults\<lparr> completedSessions := Fin 100001 \<rparr>) \<and>
   list_all (\<lambda>t. reparse t = t) (tasks (defaults\<lparr> completedSessions := Fin 100001 \<rparr>)) \<and>
   getInitialState (save (defaults\<lparr> completedSessions := Fin 100001 \<rparr>))
     \<noteq> defaults\<lparr> completedSessions := Fin 100001 \<rparr>"
proof -
  let ?s = "defaults\<lparr> completedSessions := Fin 100001 \<rparr>"
  have nn: "reparse (stateToStore ?s) \<noteq> JNull" by (simp add: stateToStore_def)
  have "completedSessions (getInitialState (save ?s)) = Fin 100000"
    unfolding save_def getInitialState_Parsed[OF nn]
    by (simp add: sanitized_sel stateToStore_def is_finite_def clampNumber_def Math_min_def
        Math_max_def)
  then have "getInitialState (save ?s) \<noteq> ?s" by auto
  moreover have "invariants ?s"
    by (simp add: invariants_def between_def cycleDuration_def js_mul_def)
  ultimately show ?thesis by simp
qed

subsection \<open>Field by field\<close>

lemma clampNumber_within:
  "a \<noteq> NaN \<Longrightarrow> \<not> js_lt a (Fin lo) \<Longrightarrow> \<not> js_gt a (Fin hi) \<Longrightarrow>
   clampNumber (Some (JNum a)) (Fin lo) (Fin hi) fb = a"
  by (cases a) (auto simp: clampNumber_def Math_min_def Math_max_def js_gt_def)

lemma clampNumber_NaN: "clampNumber (Some (JNum NaN)) lo hi fb = fb"
  by (simp add: clampNumber_def)

lemma clampNumber_cases:
  assumes "lo \<le> hi"
  shows
  "(\<not> is_number r \<longrightarrow> clampNumber r (Fin lo) (Fin hi) fb = fb) \<and>
   (r = Some (JNum NaN) \<longrightarrow> clampNumber r (Fin lo) (Fin hi) fb = fb) \<and>
   (r = Some (JNum a) \<and> js_gt a (Fin hi) \<longrightarrow> clampNumber r (Fin lo) (Fin hi) fb = Fin hi) \<and>
   (r = Some (JNum a) \<and> js_lt a (Fin lo) \<longrightarrow> clampNumber r (Fin lo) (Fin hi) fb = Fin lo) \<and>
   (r = Some (JNum a) \<and> a \<noteq> NaN \<and> \<not> js_lt a (Fin lo) \<and> \<not> js_gt a (Fin hi) \<longrightarrow>
      clampNumber r (Fin lo) (Fin hi) fb = a)"
  using assms
  by (auto simp: clampNumber_fallback clampNumber_NaN clampNumber_above clampNumber_below
      clampNumber_within)

lemma load_number_fields:
  "focusMinutes (getInitialState (Parsed v)) =
     clampNumber (read_prop v ''focusMinutes'') (Fin 5) (Fin 120) (Fin 25)"
  "breakMinutes (getInitialState (Parsed v)) =
     clampNumber (read_prop v ''breakMinutes'') (Fin 1) (Fin 45) (Fin 5)"
  "completedSessions (getInitialState (Parsed v)) =
     clampNumber (read_prop v ''completedSessions'') (Fin 0) (Fin 100000) (Fin 0)"
  "volume (getInitialState (Parsed v)) =
     clampNumber (read_prop v ''volume'') (Fin 0) (Fin 100) (Fin 40)"
  "secondsLeft (getInitialState (Parsed v)) =
     clampNumber (read_prop v ''secondsLeft'') (Fin 0)
       (cycleDuration (getInitialState (Parsed v))) (cycleDuration (getInitialState (Parsed v)))"
proof -
  have n: "\<not> is_number None" by (simp add: is_number_def)
  have c: "cycleDuration defaults = Fin 1500" by (simp add: cycleDuration_def js_mul_def)
  show "focusMinutes (getInitialState (Parsed v)) =
     clampNumber (read_prop v ''focusMinutes'') (Fin 5) (Fin 120) (Fin 25)"
    by (cases "v = JNull")
       (simp_all add: getInitialState_null getInitialState_Parsed sanitized_sel
          clampNumber_fallback n)
  show "breakMinutes (getInitialState (Parsed v)) =
     clampNumber (read_prop v ''breakMinutes'') (Fin 1) (Fin 45) (Fin 5)"
    by (cases "v = JNull")
       (simp_all add: getInitialState_null getInitialState_Parsed sanitized_sel
          clampNumber_fallback n)
  show "completedSessions (getInitialState (Parsed v)) =
     clampNumber (read_prop v ''completedSessions'') (Fin 0) (Fin 100000) (Fin 0)"
    by (cases "v = JNull")
       (simp_all add: getInitialState_null getInitialState_Parsed sanitized_sel
          clampNumber_fallback n)
  show "volume (getInitialState (Parsed v)) =
     clampNumber (read_prop v ''volume'') (Fin 0) (Fin 100) (Fin 40)"
    by (cases "v = JNull")
       (simp_all add: getInitialState_null getInitialState_Parsed sanitized_sel
          clampNumber_fallback n)
  show "secondsLeft (getInitialState (Parsed v)) =
     clampNumber (read_prop v ''secondsLeft'') (Fin 0)
       (cycleDuration (getInitialState (Parsed v))) (cycleDuration (getInitialState (Parsed v)))"
    by (cases "v = JNull")
       (simp_all add: getInitialState_null getInitialState_Parsed sanitized_sel(4)
          clampNumber_fallback n c)
qed

lemma load_cycleDuration: "\<exists>d. 0 \<le> d \<and> cycleDuration (getInitialState (Parsed v)) = Fin d"
proof (cases "v = JNull")
  case True
  then show ?thesis by (simp add: getInitialState_null cycleDuration_def js_mul_def)
next
  case False
  then show ?thesis using cycleDuration_sanitized[of v] by (auto simp: getInitialState_Parsed)
qed

lemma load_mode:
  "mode (getInitialState (Parsed v)) =
     (if read_prop v ''mode'' = Some (JStr ''break'') then Break else Focus)"
  by (cases "v = JNull") (simp_all add: getInitialState_null getInitialState_Parsed sanitized_sel)

lemma load_ambient:
  "ambient (getInitialState (Parsed v)) =
     (case read_prop v ''ambient'' of
        Some (JStr a) \<Rightarrow> (case map_of AMBIENT_OPTIONS a of Some p \<Rightarrow> p | None \<Rightarrow> Off)
      | _ \<Rightarrow> Off)"
  by (cases "v = JNull")
     (simp_all add: getInitialState_null getInitialState_Parsed sanitized_ambient)

lemma load_tasks:
  "tasks (getInitialState (Parsed v)) =
     (case read_prop v ''tasks'' of
        Some (JArr xs) \<Rightarrow> map with_done (filter task_ok xs)
      | _ \<Rightarrow> [])"
  by (cases "v = JNull")
     (simp_all add: getInitialState_null getInitialState_Parsed sanitized_tasks)

text \<open>
  Claim C6, as amended. Loading never fails. Nothing stored, a text that does not parse,
  and a parsed value that is not an object (\<open>null\<close> included) give exactly the defaults. An
  object is repaired field by field. The mode is break when the stored mode is the string
  \<open>break\<close> and focus otherwise; tasks that are not an array load as no tasks; a known
  ambient value is kept and anything else loads as off. Each of the five numbers takes
  its default when it is missing, not a number or NaN (25, 5, no sessions, volume 40; the
  countdown takes the full length of the sanitized mode); above its range it becomes the
  upper bound, below its range the lower bound, and within its range it is kept. The
  ranges are \<open>[5, 120]\<close>, \<open>[1, 45]\<close>, \<open>[0, 100000]\<close>, \<open>[0, 100]\<close>, and for the countdown zero
  to the length of the sanitized mode.
\<close>

theorem load_defaults:
  "getInitialState Absent = defaults \<and>
   getInitialState Unparsable = defaults \<and>
   ((\<forall>kv. v \<noteq> JObj kv) \<longrightarrow> getInitialState (Parsed v) = defaults) \<and>
   (read_prop v ''mode'' \<noteq> Some (JStr ''break'') \<longrightarrow>
      mode (getInitialState (Parsed v)) = Focus) \<and>
   (read_prop v ''mode'' = Some (JStr ''break'') \<longrightarrow>
      mode (getInitialState (Parsed v)) = Break) \<and>
   ((\<forall>xs. read_prop v ''tasks'' \<noteq> Some (JArr xs)) \<longrightarrow>
      tasks (getInitialState (Parsed v)) = []) \<and>
   ((\<forall>p. read_prop v ''ambient'' \<noteq> Some (JStr (ambient_value p))) \<longrightarrow>
      ambient (getInitialState (Parsed v)) = Off) \<and>
   (read_prop v ''ambient'' = Some (JStr (ambient_value p)) \<longrightarrow>
      ambient (getInitialState (Parsed v)) = p) \<and>
   ((\<not> is_number (read_prop v ''focusMinutes'') \<longrightarrow>
       focusMinutes (getInitialState (Parsed v)) = Fin 25) \<and>
    (read_prop v ''focusMinutes'' = Some (JNum NaN) \<longrightarrow>
       focusMinutes (getInitialState (Parsed v)) = Fin 25) \<and>
    (read_prop v ''focusMinutes'' = Some (JNum a) \<and> js_gt a (Fin 120) \<longrightarrow>
       focusMinutes (getInitialState (Parsed v)) = Fin 120) \<and>
    (read_prop v ''focusMinutes'' = Some (JNum a) \<and> js_lt a (Fin 5) \<longrightarrow>
       focusMinutes (getInitialState (Parsed v)) = Fin 5) \<and>
    (read_prop v ''focusMinutes'' = Some (JNum a) \<and> a \<noteq> NaN \<and>
     \<not> js_lt a (Fin 5) \<and> \<not> js_gt a (Fin 120) \<longrightarrow>
       focusMinutes (getInitialState (Parsed v)) = a)) \<and>
   ((\<not> is_number (read_prop v ''breakMinutes'') \<longrightarrow>
       breakMinutes (getInitialState (Parsed v)) = Fin 5) \<and>
    (read_prop v ''breakMinutes'' = Some (JNum NaN) \<longrightarrow>
       breakMinutes (getInitialState (Parsed v)) = Fin 5) \<and>
    (read_prop v ''breakMinutes'' = Some (JNum a) \<and> js_gt a (Fin 45) \<longrightarrow>
       breakMinutes (getInitialState (Parsed v)) = Fin 45) \<and>
    (read_prop v ''breakMinutes'' = Some (JNum a) \<and> js_lt a (Fin 1) \<longrightarrow>
       breakMinutes (getInitialState (Parsed v)) = Fin 1) \<and>
    (read_prop v ''breakMinutes'' = Some (JNum a) \<and> a \<noteq> NaN \<and>
     \<not> js_lt a (Fin 1) \<and> \<not> js_gt a (Fin 45) \<longrightarrow>
       breakMinutes (getInitialState (Parsed v)) = a)) \<and>
   ((\<not> is_number (read_prop v ''secondsLeft'') \<longrightarrow>
       secondsLeft (getInitialState (Parsed v)) = cycleDuration (getInitialState (Parsed v))) \<and>
    (read_prop v ''secondsLeft'' = Some (JNum NaN) \<longrightarrow>
       secondsLeft (getInitialState (Parsed v)) = cycleDuration (getInitialState (Parsed v))) \<and>
    (read_prop v ''secondsLeft'' = Some (JNum a) \<and>
     js_gt a (cycleDuration (getInitialState (Parsed v))) \<longrightarrow>
       secondsLeft (getInitialState (Parsed v)) = cycleDuration (getInitialState (Parsed v))) \<and>
    (read_prop v ''secondsLeft'' = Some (JNum a) \<and> js_lt a (Fin 0) \<longrightarrow>
       secondsLeft (getInitialState (Parsed v)) = Fin 0) \<and>
    (read_prop v ''secondsLeft'' = Some (JNum a) \<and> a \<noteq> NaN \<and>
     \<not> js_lt a (Fin 0) \<and> \<not> js_gt a (cycleDuration (getInitialState (Parsed v))) \<longrightarrow>
       secondsLeft (getInitialState (Parsed v)) = a)) \<and>
   ((\<not> is_number (read_prop v ''completedSessions'') \<longrightarrow>
       completedSessions (getInitialState (Parsed v)) = Fin 0) \<and>
    (read_prop v ''completedSessions'' = Some (JNum NaN) \<longrightarrow>
       completedSessions (getInitialState (Parsed v)) = Fin 0) \<and>
    (read_prop v ''completedSessions'' = Some (JNum a) \<and> js_gt a (Fin 100000) \<longrightarrow>
       completedSessions (getInitialState (Parsed v)) = Fin 100000) \<and>
    (read_prop v ''completedSessions'' = Some (JNum a) \<and> js_lt a (Fin 0) \<longrightarrow>
       completedSessions (getInitialState (Parsed v)) = Fin 0) \<and>
    (read_prop v ''completedSessions'' = Some (JNum a) \<and> a \<noteq> NaN \<and>
     \<not> js_lt a (Fin 0) \<and> \<not> js_gt a (Fin 100000) \<longrightarrow>
       completedSessions (getInitialState (Parsed v)) = a)) \<and>
   ((\<not> is_number (read_prop v ''volume'') \<longrightarrow>
       volume (getInitialState (Parsed v)) = Fin 40) \<and>
    (read_prop v ''volume'' = Some (JNum NaN) \<longrightarrow>
       volume (getInitialState (Parsed v)) = Fin 40) \<and>
    (read_prop v ''volume'' = Some (JNum a) \<and> js_gt a (Fin 100) \<longrightarrow>
       volume (getInitialState (Parsed v)) = Fin 100) \<and>
    (read_prop v ''volume'' = Some (JNum a) \<and> js_lt a (Fin 0) \<longrightarrow>
       volume (getInitialState (Parsed v)) = Fin 0) \<and>
    (read_prop v ''volume'' = Some (JNum a) \<and> a \<noteq> NaN \<and>
     \<not> js_lt a (Fin 0) \<and> \<not> js_gt a (Fin 100) \<longrightarrow>
       volume (getInitialState (Parsed v)) = a))"
proof -
  have 1: "getInitialState Absent = defaults" by (rule getInitialState_Absent)
  have 2: "getInitialState Unparsable = defaults" by (rule getInitialState_Unparsable)
  have 3: "(\<forall>kv. v \<noteq> JObj kv) \<longrightarrow> getInitialState (Parsed v) = defaults"
    by (auto simp: load_Parsed_if sanitized_non_object)
  have 4: "read_prop v ''mode'' \<noteq> Some (JStr ''break'') \<longrightarrow>
      mode (getInitialState (Parsed v)) = Focus"
    by (simp add: load_mode)
  have 5: "read_prop v ''mode'' = Some (JStr ''break'') \<longrightarrow>
      mode (getInitialState (Parsed v)) = Break"
    by (simp add: load_mode)
  have 6: "(\<forall>xs. read_prop v ''tasks'' \<noteq> Some (JArr xs)) \<longrightarrow>
      tasks (getInitialState (Parsed v)) = []"
    by (auto simp: load_tasks split: option.splits json.splits)
  have 7: "(\<forall>p. read_prop v ''ambient'' \<noteq> Some (JStr (ambient_value p))) \<longrightarrow>
      ambient (getInitialState (Parsed v)) = Off"
    using ambient_lookup_value
    by (auto simp: load_ambient split: option.splits json.splits)
  have 8: "read_prop v ''ambient'' = Some (JStr (ambient_value p)) \<longrightarrow>
      ambient (getInitialState (Parsed v)) = p"
    by (simp add: load_ambient ambient_value_lookup)
  have le: "(5::rat) \<le> 120" "(1::rat) \<le> 45" "(0::rat) \<le> 100000" "(0::rat) \<le> 100"
    by simp_all
  note f = clampNumber_cases[OF le(1), of "read_prop v ''focusMinutes''" "Fin 25" a,
      folded load_number_fields(1)]
  note b = clampNumber_cases[OF le(2), of "read_prop v ''breakMinutes''" "Fin 5" a,
      folded load_number_fields(2)]
  note c = clampNumber_cases[OF le(3), of "read_prop v ''completedSessions''" "Fin 0" a,
      folded load_number_fields(3)]
  note vl = clampNumber_cases[OF le(4), of "read_prop v ''volume''" "Fin 40" a,
      folded load_number_fields(4)]
  obtain d where d: "0 \<le> d" "cycleDuration (getInitialState (Parsed v)) = Fin d"
    using load_cycleDuration by blast
  note s = clampNumber_cases[OF d(1), of "read_prop v ''secondsLeft''" "Fin d" a,
      folded d(2), folded load_number_fields(5)]
  show ?thesis
    by (intro conjI 1 2 3 4 5 6 7 8 f b s c vl)
qed

theorem load_defaults_witness:
  "getInitialState (Parsed (JStr ''corrupt'')) = defaults \<and>
   ambient (getInitialState (Parsed damaged)) = Off \<and>
   focusMinutes (getInitialState (Parsed damaged)) = Fin 120 \<and>
   breakMinutes (getInitialState (Parsed damaged)) = Fin 45 \<and>
   secondsLeft (getInitialState (Parsed damaged)) = cycleDuration (getInitialState (Parsed damaged)) \<and>
   completedSessions (getInitialState (Parsed damaged)) = Fin 0 \<and>
   volume (getInitialState (Parsed damaged)) = Fin 100 \<and>
   volume (getInitialState (Parsed (JObj [(''volume'', JNum (Fin 55)), (''mode'', JStr ''break'')])))
     = Fin 55 \<and>
   mode (getInitialState (Parsed (JObj [(''volume'', JNum (Fin 55)), (''mode'', JStr ''break'')])))
     = Break \<and>
   focusMinutes
     (getInitialState (Parsed (JObj [(''volume'', JNum (Fin 55)), (''mode'', JStr ''break'')])))
     = Fin 25"
proof -
  let ?u = "JObj [(''volume'', JNum (Fin 55)), (''mode'', JStr ''break'')]"
  note c = load_defaults[of "JStr ''corrupt''" Off NaN]
  have 1: "getInitialState (Parsed (JStr ''corrupt'')) = defaults"
  proof -
    have i: "(\<forall>kv. JStr ''corrupt'' \<noteq> JObj kv) \<longrightarrow>
             getInitialState (Parsed (JStr ''corrupt'')) = defaults"
      using c by (elim conjE)
    have h: "\<forall>kv. JStr ''corrupt'' \<noteq> JObj kv" by simp
    from i h show ?thesis by (rule mp)
  qed
  have 2: "ambient (getInitialState (Parsed damaged)) = Off"
  proof -
    have i: "(\<forall>p. read_prop damaged ''ambient'' \<noteq> Some (JStr (ambient_value p))) \<longrightarrow>
             ambient (getInitialState (Parsed damaged)) = Off"
      using load_defaults[of damaged Off "Fin 200"] by (elim conjE)
    have h: "\<forall>p. read_prop damaged ''ambient'' \<noteq> Some (JStr (ambient_value p))"
      by (simp add: damaged_def ambient_value_def split: ambient.split)
    from i h show ?thesis by (rule mp)
  qed
  have 3: "focusMinutes (getInitialState (Parsed damaged)) = Fin 120"
  proof -
    have i: "read_prop damaged ''focusMinutes'' = Some (JNum (Fin 200)) \<and>
             js_gt (Fin 200) (Fin 120) \<longrightarrow>
             focusMinutes (getInitialState (Parsed damaged)) = Fin 120"
      using load_defaults[of damaged Off "Fin 200"] by (elim conjE)
    have h: "read_prop damaged ''focusMinutes'' = Some (JNum (Fin 200)) \<and>
             js_gt (Fin 200) (Fin 120)"
      by (simp add: damaged_def js_gt_def)
    from i h show ?thesis by (rule mp)
  qed
  have 4: "breakMinutes (getInitialState (Parsed damaged)) = Fin 45"
  proof -
    have i: "read_prop damaged ''breakMinutes'' = Some (JNum (Fin 90)) \<and>
             js_gt (Fin 90) (Fin 45) \<longrightarrow>
             breakMinutes (getInitialState (Parsed damaged)) = Fin 45"
      using load_defaults[of damaged Off "Fin 90"] by (elim conjE)
    have h: "read_prop damaged ''breakMinutes'' = Some (JNum (Fin 90)) \<and> js_gt (Fin 90) (Fin 45)"
      by (simp add: damaged_def js_gt_def)
    from i h show ?thesis by (rule mp)
  qed
  have 5: "secondsLeft (getInitialState (Parsed damaged)) =
           cycleDuration (getInitialState (Parsed damaged))"
  proof -
    have i: "read_prop damaged ''secondsLeft'' = Some (JNum (Fin 99999)) \<and>
             js_gt (Fin 99999) (cycleDuration (getInitialState (Parsed damaged))) \<longrightarrow>
             secondsLeft (getInitialState (Parsed damaged)) =
               cycleDuration (getInitialState (Parsed damaged))"
      using load_defaults[of damaged Off "Fin 99999"] by (elim conjE)
    have c: "cycleDuration (getInitialState (Parsed damaged)) = Fin 7200"
      by (simp add: cycleDuration_def load_mode load_number_fields(1) damaged_def
          clampNumber_def Math_min_def Math_max_def js_mul_def)
    have h: "read_prop damaged ''secondsLeft'' = Some (JNum (Fin 99999)) \<and>
             js_gt (Fin 99999) (cycleDuration (getInitialState (Parsed damaged)))"
      unfolding c by (simp add: damaged_def js_gt_def)
    from i h show ?thesis by (rule mp)
  qed
  have 6: "completedSessions (getInitialState (Parsed damaged)) = Fin 0"
  proof -
    have i: "read_prop damaged ''completedSessions'' = Some (JNum (Fin (- 3))) \<and>
             js_lt (Fin (- 3)) (Fin 0) \<longrightarrow>
             completedSessions (getInitialState (Parsed damaged)) = Fin 0"
      using load_defaults[of damaged Off "Fin (- 3)"] by (elim conjE)
    have h: "read_prop damaged ''completedSessions'' = Some (JNum (Fin (- 3))) \<and>
             js_lt (Fin (- 3)) (Fin 0)"
      by (simp add: damaged_def)
    from i h show ?thesis by (rule mp)
  qed
  have 7: "volume (getInitialState (Parsed damaged)) = Fin 100"
  proof -
    have i: "read_prop damaged ''volume'' = Some (JNum (Fin 150)) \<and>
             js_gt (Fin 150) (Fin 100) \<longrightarrow>
             volume (getInitialState (Parsed damaged)) = Fin 100"
      using load_defaults[of damaged Off "Fin 150"] by (elim conjE)
    have h: "read_prop damaged ''volume'' = Some (JNum (Fin 150)) \<and> js_gt (Fin 150) (Fin 100)"
      by (simp add: damaged_def js_gt_def)
    from i h show ?thesis by (rule mp)
  qed
  have 8: "volume (getInitialState (Parsed ?u)) = Fin 55"
  proof -
    have i: "read_prop ?u ''volume'' = Some (JNum (Fin 55)) \<and> Fin 55 \<noteq> NaN \<and>
             \<not> js_lt (Fin 55) (Fin 0) \<and> \<not> js_gt (Fin 55) (Fin 100) \<longrightarrow>
             volume (getInitialState (Parsed ?u)) = Fin 55"
      using load_defaults[of ?u Off "Fin 55"] by (elim conjE)
    have h: "read_prop ?u ''volume'' = Some (JNum (Fin 55)) \<and> Fin 55 \<noteq> NaN \<and>
             \<not> js_lt (Fin 55) (Fin 0) \<and> \<not> js_gt (Fin 55) (Fin 100)"
      by (simp add: js_gt_def)
    from i h show ?thesis by (rule mp)
  qed
  have 9: "mode (getInitialState (Parsed ?u)) = Break"
  proof -
    have i: "read_prop ?u ''mode'' = Some (JStr ''break'') \<longrightarrow>
             mode (getInitialState (Parsed ?u)) = Break"
      using load_defaults[of ?u Off "Fin 55"] by (elim conjE)
    have h: "read_prop ?u ''mode'' = Some (JStr ''break'')" by simp
    from i h show ?thesis by (rule mp)
  qed
  have 10: "focusMinutes (getInitialState (Parsed ?u)) = Fin 25"
  proof -
    have i: "\<not> is_number (read_prop ?u ''focusMinutes'') \<longrightarrow>
             focusMinutes (getInitialState (Parsed ?u)) = Fin 25"
      using load_defaults[of ?u Off "Fin 55"] by (elim conjE)
    have h: "\<not> is_number (read_prop ?u ''focusMinutes'')" by (simp add: is_number_def)
    from i h show ?thesis by (rule mp)
  qed
  show ?thesis
    by (intro conjI 1 2 3 4 5 6 7 8 9 10)
qed

text \<open>
  The claim as stated fails: a stored object whose only field is a focus length of 200
  minutes violates the schema (the length is out of range and every other field is
  missing), and it loads with 120 focus minutes and 7200 seconds left, not with the
  defaults 25 and 1500.
\<close>

theorem load_defaults_counterexample:
  "\<not> between 5 120 (Fin 200) \<and>
   getInitialState (Parsed (JObj [(''focusMinutes'', JNum (Fin 200))])) \<noteq> defaults \<and>
   focusMinutes (getInitialState (Parsed (JObj [(''focusMinutes'', JNum (Fin 200))]))) = Fin 120 \<and>
   secondsLeft (getInitialState (Parsed (JObj [(''focusMinutes'', JNum (Fin 200))]))) = Fin 7200"
proof -
  let ?v = "JObj [(''focusMinutes'', JNum (Fin 200))]"
  have f: "focusMinutes (getInitialState (Parsed ?v)) = Fin 120"
    by (simp add: getInitialState_Parsed sanitized_sel clampNumber_def Math_min_def Math_max_def)
  have s: "secondsLeft (getInitialState (Parsed ?v)) = Fin 7200"
    by (simp add: getInitialState_Parsed sanitized_def clampNumber_def Math_min_def Math_max_def
        js_mul_def)
  have "getInitialState (Parsed ?v) \<noteq> defaults" using f by auto
  with f s show ?thesis by (simp add: between_def)
qed


section \<open>The timer: properties\<close>

lemma synced_sync_refs: "synced (sync_refs s)"
  by (simp add: synced_def sync_refs_def)

lemma sync_refs_id: "synced s \<Longrightarrow> sync_refs s = s"
  by (simp add: synced_def sync_refs_def)

lemma sync_refs_sel [simp]:
  "focusMinutes (sync_refs s) = focusMinutes s" "breakMinutes (sync_refs s) = breakMinutes s"
  "mode (sync_refs s) = mode s" "secondsLeft (sync_refs s) = secondsLeft s"
  "completedSessions (sync_refs s) = completedSessions s" "isRunning (sync_refs s) = isRunning s"
  "tasks (sync_refs s) = tasks s" "ambient (sync_refs s) = ambient s" "volume (sync_refs s) = volume s"
  by (simp_all add: sync_refs_def)

lemma cycleDuration_sync [simp]: "cycleDuration (sync_refs s) = cycleDuration s"
  by (simp add: cycleDuration_def)

text \<open>
  Claim C7. Whatever the state before, choosing mode \<open>m\<close> sets the mode to \<open>m\<close>, stops the
  timer, sets the countdown to the full length of \<open>m\<close>, and leaves the session count as it
  was.
\<close>

theorem setMode_effect:
  "mode (step (SetMode m) s) = m \<and>
   \<not> isRunning (step (SetMode m) s) \<and>
   secondsLeft (step (SetMode m) s) = cycleDuration (step (SetMode m) s) \<and>
   secondsLeft (step (SetMode m) s) =
     js_mul (if m = Focus then focusMinutes s else breakMinutes s) (Fin 60) \<and>
   focusMinutes (step (SetMode m) s) = focusMinutes s \<and>
   breakMinutes (step (SetMode m) s) = breakMinutes s \<and>
   completedSessions (step (SetMode m) s) = completedSessions s"
  by (simp add: step_def handleToggleMode_def cycleDuration_def)

lemma tick_dec:
  assumes "isRunning s" "synced s" "secondsLeft s = Fin q" "1 < q"
  shows "step Tick s = s\<lparr> secondsLeft := Fin (q - 1) \<rparr>"
proof -
  have "tick s = s\<lparr> secondsLeft := Fin (q - 1) \<rparr>"
    using assms by (simp add: tick_def interval_callback_def js_gt_def js_sub_def)
  moreover have "synced (s\<lparr> secondsLeft := Fin (q - 1) \<rparr>)"
    using assms(2) by (simp add: synced_def)
  ultimately show ?thesis by (simp add: step_def sync_refs_id)
qed

lemma tick_flip_focus:
  assumes "isRunning s" "synced s" "secondsLeft s = Fin q" "q \<le> 1" "mode s = Focus"
  shows "step Tick s =
           s\<lparr> completedSessions := js_add (completedSessions s) (Fin 1), modeRef := Break,
              mode := Break, secondsLeft := js_mul (breakMinutes s) (Fin 60) \<rparr>"
proof -
  let ?t = "s\<lparr> completedSessions := js_add (completedSessions s) (Fin 1), modeRef := Break,
              mode := Break, secondsLeft := js_mul (breakMinutes s) (Fin 60) \<rparr>"
  have "tick s = ?t"
    using assms by (simp add: tick_def interval_callback_def js_gt_def synced_def Let_def)
  moreover have "synced ?t" using assms(2) by (simp add: synced_def)
  ultimately show ?thesis by (simp add: step_def sync_refs_id)
qed

lemma tick_flip_break:
  assumes "isRunning s" "synced s" "secondsLeft s = Fin q" "q \<le> 1" "mode s = Break"
  shows "step Tick s =
           s\<lparr> modeRef := Focus, mode := Focus, secondsLeft := js_mul (focusMinutes s) (Fin 60) \<rparr>"
proof -
  let ?t = "s\<lparr> modeRef := Focus, mode := Focus, secondsLeft := js_mul (focusMinutes s) (Fin 60) \<rparr>"
  have "tick s = ?t"
    using assms by (simp add: tick_def interval_callback_def js_gt_def synced_def Let_def)
  moreover have "synced ?t" using assms(2) by (simp add: synced_def)
  ultimately show ?thesis by (simp add: step_def sync_refs_id)
qed

lemma ticks_Suc_right: "ticks (Suc k) s = step Tick (ticks k s)"
  by (induction k arbitrary: s) simp_all

lemma ticks_add: "ticks (j + k) s = ticks k (ticks j s)"
  by (induction j arbitrary: s) simp_all

lemma countdown:
  assumes "isRunning s" "synced s" "secondsLeft s = Fin (of_nat n)" "k < n"
  shows "ticks k s = s\<lparr> secondsLeft := Fin (of_nat (n - k)) \<rparr>"
  using assms
proof (induction k arbitrary: s n)
  case 0
  then show ?case by simp
next
  case (Suc k)
  let ?s1 = "s\<lparr> secondsLeft := Fin (of_nat (n - 1)) \<rparr>"
  have n: "1 < n" using Suc.prems by simp
  then have "(1::rat) < of_nat n" by simp
  from tick_dec[OF Suc.prems(1,2,3) this]
  have st: "step Tick s = ?s1" using n by (simp add: of_nat_diff)
  have "ticks k ?s1 = ?s1\<lparr> secondsLeft := Fin (of_nat (n - 1 - k)) \<rparr>"
    using Suc.prems by (intro Suc.IH) (simp_all add: synced_def)
  then show ?case by (simp add: st)
qed

lemma leg_focus:
  assumes "isRunning s" "synced s" "mode s = Focus" "secondsLeft s = Fin (of_nat n)" "0 < n"
  shows "ticks n s =
           s\<lparr> completedSessions := js_add (completedSessions s) (Fin 1), modeRef := Break,
              mode := Break, secondsLeft := js_mul (breakMinutes s) (Fin 60) \<rparr>"
proof -
  obtain m where n: "n = Suc m" using assms(5) by (cases n) auto
  let ?s1 = "s\<lparr> secondsLeft := Fin (of_nat (n - m)) \<rparr>"
  have 1: "ticks m s = ?s1"
    using assms n by (intro countdown) simp_all
  have 2: "isRunning ?s1" "synced ?s1" "mode ?s1 = Focus" "secondsLeft ?s1 = Fin 1"
    using assms n by (simp_all add: synced_def)
  have "ticks n s = step Tick ?s1" by (simp add: n ticks_Suc_right 1 del: ticks.simps)
  also have "\<dots> = ?s1\<lparr> completedSessions := js_add (completedSessions ?s1) (Fin 1), modeRef := Break,
              mode := Break, secondsLeft := js_mul (breakMinutes ?s1) (Fin 60) \<rparr>"
    by (rule tick_flip_focus[OF 2(1,2,4) _ 2(3)]) simp
  finally show ?thesis by simp
qed

lemma leg_break:
  assumes "isRunning s" "synced s" "mode s = Break" "secondsLeft s = Fin (of_nat n)" "0 < n"
  shows "ticks n s =
           s\<lparr> modeRef := Focus, mode := Focus, secondsLeft := js_mul (focusMinutes s) (Fin 60) \<rparr>"
proof -
  obtain m where n: "n = Suc m" using assms(5) by (cases n) auto
  let ?s1 = "s\<lparr> secondsLeft := Fin (of_nat (n - m)) \<rparr>"
  have 1: "ticks m s = ?s1"
    using assms n by (intro countdown) simp_all
  have 2: "isRunning ?s1" "synced ?s1" "mode ?s1 = Break" "secondsLeft ?s1 = Fin 1"
    using assms n by (simp_all add: synced_def)
  have "ticks n s = step Tick ?s1" by (simp add: n ticks_Suc_right 1 del: ticks.simps)
  also have "\<dots> = ?s1\<lparr> modeRef := Focus, mode := Focus,
                       secondsLeft := js_mul (focusMinutes ?s1) (Fin 60) \<rparr>"
    by (rule tick_flip_break[OF 2(1,2,4) _ 2(3)]) simp
  finally show ?thesis by simp
qed

text \<open>
  Claim C1. Start the idle timer in focus mode with a full countdown, whole minutes \<open>f\<close> for
  focus and \<open>b\<close> for the break. Fewer than \<open>60 f\<close> ticks leave the mode and the session
  count as they were; the tick number \<open>60 f\<close> switches to the break with \<open>60 b\<close> seconds
  left, one more session, and the timer still running; the mode and the count then stay
  until tick number \<open>60 f + 60 b\<close>, which switches back to focus, the count still one
  above the start.
\<close>

theorem focus_break_cycle:
  assumes f: "0 < f" and b: "0 < b"
    and fm: "focusMinutes s0 = Fin (of_nat f)" and bm: "breakMinutes s0 = Fin (of_nat b)"
    and m0: "mode s0 = Focus" and idle: "\<not> isRunning s0"
    and full: "secondsLeft s0 = cycleDuration s0"
    and c0: "completedSessions s0 = Fin c"
  shows
    "(k < 60 * f \<longrightarrow>
        mode (ticks k (step StartPause s0)) = Focus \<and>
        completedSessions (ticks k (step StartPause s0)) = Fin c) \<and>
     mode (ticks (60 * f) (step StartPause s0)) = Break \<and>
     secondsLeft (ticks (60 * f) (step StartPause s0)) = Fin (of_nat (60 * b)) \<and>
     completedSessions (ticks (60 * f) (step StartPause s0)) = Fin (c + 1) \<and>
     isRunning (ticks (60 * f) (step StartPause s0)) \<and>
     (60 * f \<le> k \<and> k < 60 * f + 60 * b \<longrightarrow>
        mode (ticks k (step StartPause s0)) = Break \<and>
        completedSessions (ticks k (step StartPause s0)) = Fin (c + 1)) \<and>
     mode (ticks (60 * f + 60 * b) (step StartPause s0)) = Focus \<and>
     secondsLeft (ticks (60 * f + 60 * b) (step StartPause s0)) = Fin (of_nat (60 * f)) \<and>
     completedSessions (ticks (60 * f + 60 * b) (step StartPause s0)) = Fin (c + 1) \<and>
     isRunning (ticks (60 * f + 60 * b) (step StartPause s0))"
proof -
  define s where "s = step StartPause s0"
  define t where "t = s\<lparr> completedSessions := js_add (completedSessions s) (Fin 1),
                         modeRef := Break, mode := Break,
                         secondsLeft := js_mul (breakMinutes s) (Fin 60) \<rparr>"
  have s: "isRunning s" "synced s" "mode s = Focus" "secondsLeft s = Fin (of_nat (60 * f))"
    "completedSessions s = Fin c" "focusMinutes s = Fin (of_nat f)"
    "breakMinutes s = Fin (of_nat b)"
    using fm bm m0 idle full c0
    by (simp_all add: s_def step_def toggleRunning_def synced_sync_refs cycleDuration_def
        js_mul_def mult.commute)
  have N: "0 < 60 * f" and M: "0 < 60 * b" using f b by simp_all
  have st: "ticks (60 * f) s = t"
    unfolding t_def by (rule leg_focus[OF s(1,2,3,4) N])
  have t: "isRunning t" "synced t" "mode t = Break" "secondsLeft t = Fin (of_nat (60 * b))"
    "completedSessions t = Fin (c + 1)" "focusMinutes t = Fin (of_nat f)"
    using s by (simp_all add: t_def synced_def js_mul_def mult.commute)
  have su: "ticks (60 * f + 60 * b) s =
              t\<lparr> modeRef := Focus, mode := Focus, secondsLeft := js_mul (focusMinutes t) (Fin 60) \<rparr>"
    unfolding ticks_add st by (rule leg_break[OF t(1,2,3,4) M])
  have first: "mode (ticks k s) = Focus \<and> completedSessions (ticks k s) = Fin c"
    if "k < 60 * f"
    using countdown[OF s(1,2,4) that] s(3,5) by simp
  have second: "mode (ticks k s) = Break \<and> completedSessions (ticks k s) = Fin (c + 1)"
    if "60 * f \<le> k \<and> k < 60 * f + 60 * b"
  proof -
    from that obtain j where k: "k = 60 * f + j" and j: "j < 60 * b"
      by (metis add.commute le_Suc_ex less_diff_conv2 add_diff_cancel_left')
    show ?thesis
      unfolding k ticks_add st using countdown[OF t(1,2,4) j] t(3,5) by simp
  qed
  show ?thesis
    unfolding s_def[symmetric]
    using first second st su t by (simp add: js_mul_def mult.commute)
qed

theorem focus_break_cycle_witness:
  "mode (ticks 1499 (step StartPause (mount_app defaults))) = Focus \<and>
   completedSessions (ticks 1499 (step StartPause (mount_app defaults))) = Fin 0 \<and>
   mode (ticks 1500 (step StartPause (mount_app defaults))) = Break \<and>
   secondsLeft (ticks 1500 (step StartPause (mount_app defaults))) = Fin 300 \<and>
   completedSessions (ticks 1500 (step StartPause (mount_app defaults))) = Fin 1 \<and>
   isRunning (ticks 1500 (step StartPause (mount_app defaults))) \<and>
   mode (ticks 1700 (step StartPause (mount_app defaults))) = Break \<and>
   completedSessions (ticks 1700 (step StartPause (mount_app defaults))) = Fin 1 \<and>
   mode (ticks 1800 (step StartPause (mount_app defaults))) = Focus \<and>
   completedSessions (ticks 1800 (step StartPause (mount_app defaults))) = Fin 1"
proof -
  have h: "(0::nat) < 25" "(0::nat) < 5"
    "focusMinutes (mount_app defaults) = Fin (of_nat 25)"
    "breakMinutes (mount_app defaults) = Fin (of_nat 5)"
    "mode (mount_app defaults) = Focus" "\<not> isRunning (mount_app defaults)"
    "secondsLeft (mount_app defaults) = cycleDuration (mount_app defaults)"
    "completedSessions (mount_app defaults) = Fin 0"
    by (simp_all add: mount_app_def defaults_def cycleDuration_def)
  from focus_break_cycle[OF h, of 1499] focus_break_cycle[OF h, of 1700]
  show ?thesis by simp
qed



lemma full_in_range:
  "between lo hi a \<Longrightarrow> 0 \<le> lo \<Longrightarrow>
   (case js_mul a (Fin 60) of Fin d \<Rightarrow> between 0 d (js_mul a (Fin 60)) | _ \<Rightarrow> False)"
  by (cases a) (auto simp: between_def js_mul_def)




lemma countdown_in_range_iff:
  "countdown_in_range s =
     (\<exists>d q. cycleDuration s = Fin d \<and> secondsLeft s = Fin q \<and> 0 \<le> q \<and> q \<le> d)"
  by (auto simp: countdown_in_range_def between_def split: jsnum.splits)

lemma countdown_in_range_sync [simp]:
  "countdown_in_range (sync_refs s) = countdown_in_range s"
  by (simp add: countdown_in_range_iff)

lemma cycleDuration_upd [simp]:
  "cycleDuration (s\<lparr> secondsLeft := x \<rparr>) = cycleDuration s"
  "cycleDuration (s\<lparr> isRunning := r \<rparr>) = cycleDuration s"
  "cycleDuration (s\<lparr> completedSessions := c \<rparr>) = cycleDuration s"
  "cycleDuration (s\<lparr> modeRef := m \<rparr>) = cycleDuration s"
  by (simp_all add: cycleDuration_def)










section \<open>The ambient sound: properties\<close>


lemma noise_0 [simp]: "noise r start 0 = []"
  by (simp add: noise_def)

lemma noise_Suc: "noise r start (Suc n) = sample (r start) # noise r (Suc start) n"
proof -
  have "[0..<Suc n] = 0 # map Suc [0..<n]"
    by (simp add: upt_conv_Cons map_Suc_upt del: upt_Suc)
  then show ?thesis by (simp add: noise_def comp_def del: upt_Suc)
qed

lemma length_noise [simp]: "length (noise r start n) = n"
  by (simp add: noise_def)

lemma noise_loop_eq:
  assumes "heap w buf = Some (AudioBuffer rate xs)" "length xs = fc" "i \<le> fc"
  shows "noise_loop i fc buf w =
           w\<lparr> heap := (heap w)(buf \<mapsto> AudioBuffer rate
                          (take i xs @ noise (rnd w) (random_calls w) (fc - i))),
              random_calls := random_calls w + (fc - i) \<rparr>"
  using assms
proof (induction i fc buf w arbitrary: xs rule: noise_loop.induct)
  case (1 i fc buf w)
  show ?case
  proof (cases "i < fc")
    case False
    with "1.prems" have "i = fc" by simp
    with "1.prems" have "(heap w)(buf \<mapsto> AudioBuffer rate (take i xs @ noise (rnd w) (random_calls w) (fc - i))) = heap w"
      by (auto simp: fun_eq_iff)
    with False show ?thesis by (simp add: \<open>i = fc\<close>)
  next
    case True
    let ?s0 = "js_sub (js_mul (Fin (rnd w (random_calls w))) (Fin 2)) (Fin 1)"
    let ?w1 = "w\<lparr> random_calls := Suc (random_calls w) \<rparr>"
    let ?w2 = "?w1\<lparr> heap := (heap ?w1)(buf \<mapsto> AudioBuffer rate (xs[i := ?s0])) \<rparr>"
    have mr: "Math_random w = (Fin (rnd w (random_calls w)), ?w1)"
      by (simp add: Math_random_def)
    have ws: "write_sample buf i ?s0 ?w1 = ?w2"
      using "1.prems"(1) by (simp add: write_sample_def)
    have h2: "heap ?w2 buf = Some (AudioBuffer rate (xs[i := ?s0]))" by simp
    have l2: "length (xs[i := ?s0]) = fc" using "1.prems"(2) by simp
    have step: "noise_loop i fc buf w = noise_loop (i + 1) fc buf ?w2"
      using True by (subst noise_loop.simps) (simp add: mr ws)
    have ih: "noise_loop (i + 1) fc buf ?w2 =
           ?w2\<lparr> heap := (heap ?w2)(buf \<mapsto> AudioBuffer rate
                          (take (i + 1) (xs[i := ?s0]) @ noise (rnd ?w2) (random_calls ?w2) (fc - (i + 1)))),
              random_calls := random_calls ?w2 + (fc - (i + 1)) \<rparr>"
      using True by (intro "1.IH"[OF True refl mr[symmetric], unfolded ws, OF h2 l2]) simp
    have tk: "take (i + 1) (xs[i := ?s0]) = take i xs @ [?s0]"
      using True "1.prems"(2) by (simp add: take_Suc_conv_app_nth)
    have fi: "fc - i = Suc (fc - (i + 1))" using True by simp
    have ns: "noise (rnd w) (random_calls w) (fc - i) = ?s0 # noise (rnd w) (Suc (random_calls w)) (fc - (i + 1))"
      unfolding fi noise_Suc by (simp add: sample_def)
    show ?thesis
      unfolding step ih tk ns using True by (intro audio.equality) (auto simp: fun_eq_iff)
  qed
qed

lemma noise_loop_fresh:
  "noise_loop 0 fc (next_id w)
     (w\<lparr> heap := (heap w)(next_id w \<mapsto> AudioBuffer rate (replicate fc (Fin 0))),
         next_id := Suc (next_id w) \<rparr>) =
   w\<lparr> heap := (heap w)(next_id w \<mapsto> AudioBuffer rate (noise (rnd w) (random_calls w) fc)),
      next_id := Suc (next_id w),
      random_calls := random_calls w + fc \<rparr>"
  by (subst noise_loop_eq[where rate = rate and xs = "replicate fc (Fin 0)"])
     (auto intro!: audio.equality simp: fun_eq_iff)

lemma build_graph_White:
  "build_graph White v w =
     w\<lparr> heap := base_heap v w,
        next_id := next_id w + 3,
        random_calls := random_calls w + sampleRate w * 2,
        edges := edges w @ [(next_id w + 1, ToNode (next_id w + 2)), (next_id w + 2, Destination)],
        nodes := [next_id w + 1, next_id w + 2],
        source := Some (next_id w + 1) \<rparr>"
  unfolding build_graph_def alloc_def Let_def prod.case noise_loop_fresh
  by (intro audio.equality)
     (auto simp: fun_eq_iff base_heap_def white_chain_def connect_def start_source_def)

lemma build_graph_Rain:
  "build_graph Rain v w =
     w\<lparr> heap := (base_heap v w)
                  (next_id w + 3 \<mapsto> BiquadFilterNode Highpass (Fin 800) (Fin 1) (Fin 0),
                   next_id w + 4 \<mapsto> BiquadFilterNode Lowpass (Fin 7000) (Fin 1) (Fin 0)),
        next_id := next_id w + 5,
        random_calls := random_calls w + sampleRate w * 2,
        edges := edges w @ [(next_id w + 1, ToNode (next_id w + 3)),
                            (next_id w + 3, ToNode (next_id w + 4)),
                            (next_id w + 4, ToNode (next_id w + 2)),
                            (next_id w + 2, Destination)],
        nodes := [next_id w + 1, next_id w + 3, next_id w + 4, next_id w + 2],
        source := Some (next_id w + 1) \<rparr>"
  unfolding build_graph_def alloc_def Let_def prod.case noise_loop_fresh
  by (intro audio.equality)
     (auto simp: fun_eq_iff base_heap_def rain_chain_def alloc_def connect_def start_source_def)

lemma build_graph_Forest:
  "build_graph Forest v w =
     w\<lparr> heap := (base_heap v w)
                  (next_id w + 3 \<mapsto> BiquadFilterNode Lowpass (Fin 1200) (Fin 1) (Fin 0),
                   next_id w + 4 \<mapsto> BiquadFilterNode Peaking (Fin 300) (Fin (9 / 10)) (Fin 2)),
        next_id := next_id w + 5,
        random_calls := random_calls w + sampleRate w * 2,
        edges := edges w @ [(next_id w + 1, ToNode (next_id w + 3)),
                            (next_id w + 3, ToNode (next_id w + 4)),
                            (next_id w + 4, ToNode (next_id w + 2)),
                            (next_id w + 2, Destination)],
        nodes := [next_id w + 1, next_id w + 3, next_id w + 4, next_id w + 2],
        source := Some (next_id w + 1) \<rparr>"
  unfolding build_graph_def alloc_def Let_def prod.case noise_loop_fresh
  by (intro audio.equality)
     (auto simp: fun_eq_iff base_heap_def forest_chain_def alloc_def connect_def start_source_def)

lemma build_graph_Off:
  "build_graph Off v w =
     w\<lparr> heap := base_heap v w,
        next_id := next_id w + 3,
        random_calls := random_calls w + sampleRate w * 2,
        source := Some (next_id w + 1) \<rparr>"
  unfolding build_graph_def alloc_def Let_def prod.case noise_loop_fresh
  by (intro audio.equality)
     (auto simp: fun_eq_iff base_heap_def start_source_def)

lemma fold_disconnect:
  "fold disconnect ns w = w\<lparr> edges := filter (\<lambda>e. fst e \<notin> set ns) (edges w) \<rparr>"
proof (induction ns arbitrary: w)
  case Nil
  then show ?case by simp
next
  case (Cons n ns)
  have "fold disconnect (n # ns) w = fold disconnect ns (disconnect n w)" by simp
  also have "\<dots> = (disconnect n w)\<lparr> edges := filter (\<lambda>e. fst e \<notin> set ns)
                                                (edges (disconnect n w)) \<rparr>"
    by (rule Cons.IH)
  also have "\<dots> = w\<lparr> edges := filter (\<lambda>e. fst e \<notin> set (n # ns)) (edges w) \<rparr>"
    by (simp add: disconnect_def conj_commute)
  finally show ?case .
qed

lemma is_playing_upd [simp]:
  "is_playing (w\<lparr> edges := e \<rparr>) = is_playing w"
  "is_playing (w\<lparr> source := s \<rparr>) = is_playing w"
  "is_playing (w\<lparr> nodes := ns \<rparr>) = is_playing w"
  "is_playing (w\<lparr> pending := p \<rparr>) = is_playing w"
  "is_playing (w\<lparr> ctx := c \<rparr>) = is_playing w"
  "is_playing (w\<lparr> next_id := k \<rparr>) = is_playing w"
  "is_playing (w\<lparr> random_calls := k \<rparr>) = is_playing w"
  by (simp_all add: is_playing_def fun_eq_iff)

lemma is_playing_stop_source:
  "is_playing (stop_source src w) n = (is_playing w n \<and> n \<noteq> src)"
  by (auto simp: is_playing_def stop_source_def split: option.splits audio_obj.splits play_state.splits)

lemma stop_source_sel [simp]:
  "edges (stop_source n w) = edges w" "nodes (stop_source n w) = nodes w"
  "source (stop_source n w) = source w" "next_id (stop_source n w) = next_id w"
  "ctx (stop_source n w) = ctx w" "pending (stop_source n w) = pending w"
  "rnd (stop_source n w) = rnd w" "sampleRate (stop_source n w) = sampleRate w"
  "random_calls (stop_source n w) = random_calls w"
  "starts_suspended (stop_source n w) = starts_suspended w"
  by (simp_all add: stop_source_def split: option.splits audio_obj.splits play_state.splits)

lemma stop_source_heap:
  "heap (stop_source src w) n = None \<longleftrightarrow> heap w n = None"
  by (simp add: stop_source_def split: option.splits audio_obj.splits play_state.splits)

lemma stopAmbient_sel [simp]:
  "source (stopAmbient w) = None"
  "next_id (stopAmbient w) = next_id w" "ctx (stopAmbient w) = ctx w"
  "pending (stopAmbient w) = pending w" "rnd (stopAmbient w) = rnd w"
  "sampleRate (stopAmbient w) = sampleRate w" "random_calls (stopAmbient w) = random_calls w"
  "starts_suspended (stopAmbient w) = starts_suspended w"
  by (simp_all add: stopAmbient_def Let_def fold_disconnect split: option.splits)

lemma stopAmbient_quiet:
  assumes "audio_ok w"
  shows "quiet (stopAmbient w)"
proof (cases "source w")
  case None
  with assms show ?thesis
    by (auto simp: quiet_def audio_ok_def stopAmbient_def)
next
  case (Some src)
  from assms have own: "fst ` set (edges w) \<subseteq> set (nodes w)"
    and play: "\<And>n. is_playing w n \<Longrightarrow> n = src"
    and fresh: "\<And>n. next_id w \<le> n \<Longrightarrow> heap w n = None"
    using Some by (auto simp: audio_ok_def)
  have e: "filter (\<lambda>e. fst e \<notin> set (nodes w)) (edges w) = []"
    using own by (auto simp: filter_empty_conv)
  show ?thesis
    using play fresh
    by (auto simp: quiet_def stopAmbient_def Some Let_def fold_disconnect e
        is_playing_stop_source stop_source_heap)
qed

lemma stopAmbient_idem: "stopAmbient (stopAmbient w) = stopAmbient w"
  by (simp add: stopAmbient_def[of "stopAmbient w"])

lemma quiet_ok: "quiet w \<Longrightarrow> audio_ok w"
  by (simp add: quiet_def audio_ok_def to_destination_def)

lemma build_graph_ok:
  assumes "quiet w"
  shows "audio_ok (build_graph a v w)"
proof -
  from assms have q: "source w = None" "nodes w = []" "edges w = []"
    "\<And>n. \<not> is_playing w n" "\<And>n. next_id w \<le> n \<Longrightarrow> heap w n = None"
    by (simp_all add: quiet_def)
  show ?thesis
  proof (cases a)
    case Off
    show ?thesis
      unfolding Off build_graph_Off using q
      by (auto simp: audio_ok_def to_destination_def is_playing_def base_heap_def)
  next
    case White
    show ?thesis
      unfolding White build_graph_White using q
      by (auto simp: audio_ok_def to_destination_def is_playing_def base_heap_def)
  next
    case Rain
    show ?thesis
      unfolding Rain build_graph_Rain using q
      by (auto simp: audio_ok_def to_destination_def is_playing_def base_heap_def)
  next
    case Forest
    show ?thesis
      unfolding Forest build_graph_Forest using q
      by (auto simp: audio_ok_def to_destination_def is_playing_def base_heap_def)
  qed
qed

lemma audio_ok_upd [simp]:
  "audio_ok (w\<lparr> pending := p \<rparr>) = audio_ok w"
  "audio_ok (w\<lparr> ctx := c \<rparr>) = audio_ok w"
  by (simp_all add: audio_ok_def to_destination_def)

lemma startAmbient_rest_ok: "audio_ok w \<Longrightarrow> audio_ok (startAmbient_rest a v w)"
  by (simp add: startAmbient_rest_def build_graph_ok stopAmbient_quiet)

lemma stopAmbient_ok: "audio_ok w \<Longrightarrow> audio_ok (stopAmbient w)"
  by (simp add: quiet_ok stopAmbient_quiet)

lemma startAmbient_ok: "audio_ok w \<Longrightarrow> audio_ok (startAmbient a v w)"
  by (auto simp: startAmbient_def Let_def stopAmbient_ok startAmbient_rest_ok split: option.splits)

lemma resume_settled_ok: "audio_ok w \<Longrightarrow> audio_ok (resume_settled w)"
  by (auto simp: resume_settled_def startAmbient_rest_ok split: list.splits)

lemma ambient_effect_ok: "audio_ok w \<Longrightarrow> audio_ok (ambient_effect a v w)"
  by (simp add: ambient_effect_def stopAmbient_ok startAmbient_ok)

lemma effect_cleanup_ok: "audio_ok w \<Longrightarrow> audio_ok (effect_cleanup a w)"
  by (simp add: effect_cleanup_def stopAmbient_ok)

lemma fire_ok: "audio_ok (snd p) \<Longrightarrow> audio_ok (snd (fire e p))"
  by (cases p; cases e)
     (auto simp: fire_def setAmbient_def setVolume_def ambient_effect_ok effect_cleanup_ok
        resume_settled_ok)

lemma fold_fire_ok: "audio_ok (snd p) \<Longrightarrow> audio_ok (snd (fold fire es p))"
  by (induction es arbitrary: p) (simp_all add: fire_ok)

lemma audio_init_ok: "audio_ok (audio_init r rate blocked)"
  by (simp add: audio_ok_def audio_init_def to_destination_def is_playing_def)

lemma session_ok: "audio_ok (snd (session raw r rate blocked es))"
  unfolding session_def
  by (rule fold_fire_ok) (simp add: mount_def Let_def ambient_effect_ok audio_init_ok)

lemma filter_eq_upt: "c < m \<Longrightarrow> filter (\<lambda>n. n = c) [0..<m] = [c]"
proof (induction m)
  case 0
  then show ?case by simp
next
  case (Suc m)
  show ?case
  proof (cases "c = m")
    case True
    then have "filter (\<lambda>n. n = c) [0..<m] = []" by (auto simp: filter_empty_conv)
    with True show ?thesis by simp
  next
    case False
    with Suc show ?thesis by simp
  qed
qed

lemma playing_le1:
  assumes "audio_ok w"
  shows "length (playing w) \<le> 1"
proof (cases "source w")
  case None
  with assms have "playing w = []"
    by (auto simp: playing_def audio_ok_def filter_empty_conv)
  then show ?thesis by simp
next
  case (Some src)
  have d: "distinct (playing w)" by (simp add: playing_def)
  have "set (playing w) \<subseteq> {src}"
    using assms Some by (auto simp: playing_def audio_ok_def)
  then have "card (set (playing w)) \<le> card {src}"
    by (intro card_mono) simp_all
  then show ?thesis using distinct_card[OF d] by simp
qed

lemma quiet_silent: "quiet w \<Longrightarrow> to_destination w = [] \<and> playing w = []"
  by (simp add: quiet_def to_destination_def playing_def filter_empty_conv)

lemma build_graph_sounds:
  assumes "quiet w" "a \<noteq> Off"
  shows "to_destination (build_graph a v w) = [(next_id w + 2, Destination)]"
    and "playing (build_graph a v w) = [next_id w + 1]"
proof -
  from assms have q: "edges w = []" "\<And>n. \<not> is_playing w n"
    by (simp_all add: quiet_def)
  have p: "is_playing (build_graph a v w) = (\<lambda>n. n = next_id w + 1)"
    using assms(2) q(2)
    by (cases a)
       (auto simp: fun_eq_iff build_graph_White build_graph_Rain build_graph_Forest
          is_playing_def base_heap_def)
  show "to_destination (build_graph a v w) = [(next_id w + 2, Destination)]"
    using assms(2) q(1)
    by (cases a)
       (simp_all add: build_graph_White build_graph_Rain build_graph_Forest to_destination_def)
  have "next_id w + 1 < next_id (build_graph a v w)"
    using assms(2)
    by (cases a) (simp_all add: build_graph_White build_graph_Rain build_graph_Forest)
  then show "playing (build_graph a v w) = [next_id w + 1]"
    unfolding playing_def p by (rule filter_eq_upt)
qed

lemma effect_rerun:
  assumes "a \<noteq> Off" "ctx w = Some Running"
  shows "ambient_effect a v (effect_cleanup prev w) = build_graph a v (stopAmbient w)"
  using assms
  by (simp add: ambient_effect_def effect_cleanup_def startAmbient_def startAmbient_rest_def
      stopAmbient_idem)

lemma effect_rerun_Off:
  "ambient_effect Off v (effect_cleanup prev w) = stopAmbient w"
  by (simp add: ambient_effect_def effect_cleanup_def stopAmbient_idem)

lemma one_graph_aux:
  assumes ok: "audio_ok (snd p)"
  shows
  "length (to_destination (snd p)) \<le> 1 \<and>
   length (playing (snd p)) \<le> 1 \<and>
   to_destination (stopAmbient (snd p)) = [] \<and>
   playing (stopAmbient (snd p)) = [] \<and>
   (a \<noteq> Off \<longrightarrow>
      startAmbient_rest a v (snd p) = build_graph a v (stopAmbient (snd p)) \<and>
      to_destination (startAmbient_rest a v (snd p)) = [(next_id (snd p) + 2, Destination)] \<and>
      playing (startAmbient_rest a v (snd p)) = [next_id (snd p) + 1]) \<and>
   (a \<noteq> ambient (fst p) \<and> a \<noteq> Off \<and> ctx (snd p) = Some Running \<longrightarrow>
      snd (setAmbient a p) = build_graph a (volume (fst p)) (stopAmbient (snd p))) \<and>
   (ambient (fst p) \<noteq> Off \<longrightarrow> snd (setAmbient Off p) = stopAmbient (snd p)) \<and>
   setAmbient (ambient (fst p)) p = p \<and>
   setVolume (volume (fst p)) p = p"
proof (intro conjI impI)
  have q: "quiet (stopAmbient (snd p))" by (rule stopAmbient_quiet[OF ok])
  show "length (to_destination (snd p)) \<le> 1" using ok by (simp add: audio_ok_def)
  show "length (playing (snd p)) \<le> 1" by (rule playing_le1[OF ok])
  show "to_destination (stopAmbient (snd p)) = []" using quiet_silent[OF q] by simp
  show "playing (stopAmbient (snd p)) = []" using quiet_silent[OF q] by simp
  show "setAmbient (ambient (fst p)) p = p" by (cases p) (simp add: setAmbient_def)
  show "setVolume (volume (fst p)) p = p" by (cases p) (simp add: setVolume_def)
  {
    assume a: "a \<noteq> Off"
    show "startAmbient_rest a v (snd p) = build_graph a v (stopAmbient (snd p))"
      by (simp add: startAmbient_rest_def)
    show "to_destination (startAmbient_rest a v (snd p)) = [(next_id (snd p) + 2, Destination)]"
      using build_graph_sounds(1)[OF q a, of v] by (simp add: startAmbient_rest_def)
    show "playing (startAmbient_rest a v (snd p)) = [next_id (snd p) + 1]"
      using build_graph_sounds(2)[OF q a, of v] by (simp add: startAmbient_rest_def)
  }
  {
    assume "a \<noteq> ambient (fst p) \<and> a \<noteq> Off \<and> ctx (snd p) = Some Running"
    then show "snd (setAmbient a p) = build_graph a (volume (fst p)) (stopAmbient (snd p))"
      by (cases p) (simp add: setAmbient_def effect_rerun)
  }
  {
    assume "ambient (fst p) \<noteq> Off"
    then show "snd (setAmbient Off p) = stopAmbient (snd p)"
      by (cases p) (simp add: setAmbient_def effect_rerun_Off)
  }
qed

text \<open>
  Claim C8. In every state of every session at most one connection enters the output
  device and at most one source plays. Tearing down leaves nothing connected and nothing
  playing, and the part of \<open>startAmbient\<close> that builds a graph runs on the torn-down state
  only, after which exactly the new gain node is connected to the output and exactly the
  new source plays. Choosing a different profile while the context runs is this teardown
  followed by the build; choosing off is the teardown alone; choosing the profile or the
  volume that is already set changes nothing.
\<close>

theorem one_graph_at_a_time:
  "length (to_destination (snd (session raw r rate blocked es))) \<le> 1 \<and>
   length (playing (snd (session raw r rate blocked es))) \<le> 1 \<and>
   to_destination (stopAmbient (snd (session raw r rate blocked es))) = [] \<and>
   playing (stopAmbient (snd (session raw r rate blocked es))) = [] \<and>
   (a \<noteq> Off \<longrightarrow>
      startAmbient_rest a v (snd (session raw r rate blocked es)) =
        build_graph a v (stopAmbient (snd (session raw r rate blocked es))) \<and>
      to_destination (startAmbient_rest a v (snd (session raw r rate blocked es))) =
        [(next_id (snd (session raw r rate blocked es)) + 2, Destination)] \<and>
      playing (startAmbient_rest a v (snd (session raw r rate blocked es))) =
        [next_id (snd (session raw r rate blocked es)) + 1]) \<and>
   (a \<noteq> ambient (fst (session raw r rate blocked es)) \<and> a \<noteq> Off \<and>
    ctx (snd (session raw r rate blocked es)) = Some Running \<longrightarrow>
      snd (setAmbient a (session raw r rate blocked es)) =
        build_graph a (volume (fst (session raw r rate blocked es)))
          (stopAmbient (snd (session raw r rate blocked es)))) \<and>
   (ambient (fst (session raw r rate blocked es)) \<noteq> Off \<longrightarrow>
      snd (setAmbient Off (session raw r rate blocked es)) =
        stopAmbient (snd (session raw r rate blocked es))) \<and>
   setAmbient (ambient (fst (session raw r rate blocked es))) (session raw r rate blocked es) =
     session raw r rate blocked es \<and>
   setVolume (volume (fst (session raw r rate blocked es))) (session raw r rate blocked es) =
     session raw r rate blocked es"
  by (rule one_graph_aux[OF session_ok])

lemmas session_eval =
  session_def mount_def fire_def setAmbient_def setVolume_def ambient_effect_def
  effect_cleanup_def startAmbient_def startAmbient_rest_def stopAmbient_def audio_init_def
  getInitialState_Absent mount_app_def Let_def fold_disconnect stop_source_def
  build_graph_White build_graph_Rain build_graph_Forest base_heap_def

lemma rain_session_facts:
  "ambient (fst rain_session) = Rain" "ctx (snd rain_session) = Some Running"
  "volume (fst rain_session) = Fin 40" "next_id (snd rain_session) = 5"
  by (simp_all add: rain_session_def session_eval)








lemma build_graph_old: "n < next_id w \<Longrightarrow> heap (build_graph a v w) n = heap w n"
  by (cases a)
     (simp_all add: build_graph_White build_graph_Rain build_graph_Forest build_graph_Off
        base_heap_def)

lemma stopAmbient_heap: "source w \<noteq> Some n \<Longrightarrow> heap (stopAmbient w) n = heap w n"
  by (auto simp: stopAmbient_def Let_def fold_disconnect stop_source_def
      split: option.splits audio_obj.splits play_state.splits)

lemma build_graph_nodes:
  "a \<noteq> Off \<Longrightarrow> n \<in> set (nodes (build_graph a v w)) \<Longrightarrow> next_id w \<le> n"
  by (cases a) (auto simp: build_graph_White build_graph_Rain build_graph_Forest)

lemma build_graph_source: "source (build_graph a v w) = Some (next_id w + 1)"
  by (cases a)
     (simp_all add: build_graph_White build_graph_Rain build_graph_Forest build_graph_Off)

lemma build_graph_gain:
  "a \<noteq> Off \<Longrightarrow> last (stages (build_graph a v w)) = Some (GainNode (js_div v 100))"
  by (cases a)
     (simp_all add: build_graph_White build_graph_Rain build_graph_Forest stages_def
        base_heap_def)

lemma build_graph_ctx: "ctx (build_graph a v w) = ctx w"
  by (cases a)
     (simp_all add: build_graph_White build_graph_Rain build_graph_Forest build_graph_Off)

lemma stopAmbient_ctx_ok: "ctx_ok (stopAmbient w)"
  by (simp add: ctx_ok_def)

lemma startAmbient_rest_ctx_ok: "ctx w = Some Running \<Longrightarrow> ctx_ok (startAmbient_rest a v w)"
  by (simp add: ctx_ok_def startAmbient_rest_def build_graph_ctx)

lemma startAmbient_ctx_ok:
  assumes "ctx_ok w"
  shows "ctx_ok (startAmbient a v w)"
proof (cases "a = Off")
  case True
  then show ?thesis by (simp add: startAmbient_def stopAmbient_ctx_ok)
next
  case False
  show ?thesis
  proof (cases "ctx w")
    case None
    with assms have s: "source w = None" by (auto simp: ctx_ok_def)
    show ?thesis
      using False None s
      by (cases "starts_suspended w")
         (simp_all add: startAmbient_def startAmbient_rest_ctx_ok, simp add: ctx_ok_def)
  next
    case (Some c)
    show ?thesis
    proof (cases c)
      case Suspended
      with assms Some have "source w = None" by (auto simp: ctx_ok_def)
      with False Some Suspended show ?thesis
        by (simp add: startAmbient_def ctx_ok_def)
    next
      case Running
      with False Some show ?thesis
        by (simp add: startAmbient_def startAmbient_rest_ctx_ok)
    qed
  qed
qed

lemma resume_settled_ctx_ok: "ctx_ok w \<Longrightarrow> ctx_ok (resume_settled w)"
  by (auto simp: resume_settled_def startAmbient_rest_ctx_ok split: list.splits)

lemma ambient_effect_ctx_ok: "ctx_ok w \<Longrightarrow> ctx_ok (ambient_effect a v (effect_cleanup prev w))"
  by (simp add: ambient_effect_def effect_cleanup_def stopAmbient_ctx_ok startAmbient_ctx_ok)

lemma fire_ctx_ok: "ctx_ok (snd p) \<Longrightarrow> ctx_ok (snd (fire e p))"
  by (cases p; cases e)
     (simp_all add: fire_def setAmbient_def setVolume_def ambient_effect_ctx_ok
        resume_settled_ctx_ok)

lemma fold_fire_ctx_ok: "ctx_ok (snd p) \<Longrightarrow> ctx_ok (snd (fold fire es p))"
  by (induction es arbitrary: p) (simp_all add: fire_ctx_ok)

lemma session_ctx_ok: "ctx_ok (snd (session raw r rate blocked es))"
proof -
  have "ctx_ok (audio_init r rate blocked)" by (simp add: ctx_ok_def audio_init_def)
  from ambient_effect_ctx_ok[OF this, of _ _ Off]
  show ?thesis
    unfolding session_def
    by (intro fold_fire_ctx_ok) (simp add: mount_def Let_def effect_cleanup_def)
qed

lemma volume_change_aux:
  assumes ok: "audio_ok (snd p)" and cok: "ctx_ok (snd p)"
  shows
  "(source (snd p) \<noteq> None \<and> v \<noteq> volume (fst p) \<longrightarrow>
      source (snd (setVolume v p)) \<noteq> source (snd p) \<and>
      (n \<in> set (nodes (snd p)) \<and> source (snd p) \<noteq> Some n \<longrightarrow>
         heap (snd (setVolume v p)) n = heap (snd p) n) \<and>
      (n \<in> set (nodes (snd p)) \<longrightarrow> n \<notin> fst ` set (edges (snd (setVolume v p)))) \<and>
      (source (snd p) = Some n \<longrightarrow> \<not> is_playing (snd (setVolume v p)) n) \<and>
      (ambient (fst p) \<noteq> Off \<longrightarrow>
         snd (setVolume v p) = build_graph (ambient (fst p)) v (stopAmbient (snd p)) \<and>
         source (snd (setVolume v p)) = Some (next_id (snd p) + 1) \<and>
         set (nodes (snd (setVolume v p))) \<inter> set (nodes (snd p)) = {} \<and>
         last (stages (snd (setVolume v p))) = Some (GainNode (js_div v 100))) \<and>
      (ambient (fst p) = Off \<longrightarrow>
         snd (setVolume v p) = stopAmbient (snd p) \<and>
         source (snd (setVolume v p)) = None \<and>
         nodes (snd (setVolume v p)) = [] \<and>
         to_destination (snd (setVolume v p)) = [] \<and>
         playing (snd (setVolume v p)) = [])) \<and>
   (v = volume (fst p) \<longrightarrow> setVolume v p = p)"
proof (intro conjI impI)
  assume "v = volume (fst p)"
  then show "setVolume v p = p" by (cases p) (simp add: setVolume_def)
next
  assume h: "source (snd p) \<noteq> None \<and> v \<noteq> volume (fst p)"
  from ok have old: "\<And>n. n \<in> set (nodes (snd p)) \<Longrightarrow> n < next_id (snd p)"
    and src: "\<And>n. source (snd p) = Some n \<Longrightarrow> n < next_id (snd p)"
    by (auto simp: audio_ok_def)
  from h cok have run: "ctx (snd p) = Some Running" by (simp add: ctx_ok_def)
  have q: "quiet (stopAmbient (snd p))" by (rule stopAmbient_quiet[OF ok])
  have on: "snd (setVolume v p) = build_graph (ambient (fst p)) v (stopAmbient (snd p))"
    if "ambient (fst p) \<noteq> Off"
    using h that run by (cases p) (simp add: setVolume_def effect_rerun)
  have off: "snd (setVolume v p) = stopAmbient (snd p)" if "ambient (fst p) = Off"
    using h that by (cases p) (simp add: setVolume_def effect_rerun_Off)
  show "source (snd (setVolume v p)) \<noteq> source (snd p)"
  proof (cases "ambient (fst p) = Off")
    case True
    with off h show ?thesis by auto
  next
    case False
    with on src[of "next_id (snd p) + 1"] show ?thesis
      by (auto simp: build_graph_source)
  qed
  have ok': "audio_ok (snd (setVolume v p))"
    using fire_ok[OF ok, of "ChangeVolume v"] by (simp add: fire_def)
  have apart: "set (nodes (snd (setVolume v p))) \<inter> set (nodes (snd p)) = {}"
  proof (cases "ambient (fst p) = Off")
    case True
    with off q show ?thesis by (simp add: quiet_def)
  next
    case False
    with on old build_graph_nodes[of "ambient (fst p)" _ v "stopAmbient (snd p)"]
    show ?thesis by fastforce
  qed
  {
    assume "n \<in> set (nodes (snd p))"
    with apart ok' show "n \<notin> fst ` set (edges (snd (setVolume v p)))"
      unfolding audio_ok_def by blast
  }
  {
    assume s: "source (snd p) = Some n"
    have d: "source (snd (setVolume v p)) \<noteq> source (snd p)"
    proof (cases "ambient (fst p) = Off")
      case True
      with off h show ?thesis by auto
    next
      case False
      with on src[of "next_id (snd p) + 1"] show ?thesis
        by (auto simp: build_graph_source)
    qed
    with s ok' show "\<not> is_playing (snd (setVolume v p)) n"
      unfolding audio_ok_def by metis
  }
  {
    assume n: "n \<in> set (nodes (snd p)) \<and> source (snd p) \<noteq> Some n"
    show "heap (snd (setVolume v p)) n = heap (snd p) n"
    proof (cases "ambient (fst p) = Off")
      case True
      with off n show ?thesis by (simp add: stopAmbient_heap)
    next
      case False
      with on n old[of n] show ?thesis by (simp add: build_graph_old stopAmbient_heap)
    qed
  }
  {
    assume a: "ambient (fst p) \<noteq> Off"
    show "snd (setVolume v p) = build_graph (ambient (fst p)) v (stopAmbient (snd p))"
      by (rule on[OF a])
    show "source (snd (setVolume v p)) = Some (next_id (snd p) + 1)"
      unfolding on[OF a] by (simp add: build_graph_source)
    show "set (nodes (snd (setVolume v p))) \<inter> set (nodes (snd p)) = {}"
      unfolding on[OF a]
      using old build_graph_nodes[of "ambient (fst p)" _ v "stopAmbient (snd p)"] a
      by fastforce
    show "last (stages (snd (setVolume v p))) = Some (GainNode (js_div v 100))"
      unfolding on[OF a] using a by (simp add: build_graph_gain)
  }
  {
    assume a: "ambient (fst p) = Off"
    show "snd (setVolume v p) = stopAmbient (snd p)" by (rule off[OF a])
    show "source (snd (setVolume v p)) = None" unfolding off[OF a] by simp
    show "nodes (snd (setVolume v p)) = []" unfolding off[OF a] using q by (simp add: quiet_def)
    show "to_destination (snd (setVolume v p)) = []"
      unfolding off[OF a] using quiet_silent[OF q] by simp
    show "playing (snd (setVolume v p)) = []"
      unfolding off[OF a] using quiet_silent[OF q] by simp
  }
qed

text \<open>
  Claim C3, as amended. While a graph is active, a change of volume never updates the gain
  in place: the whole graph is torn down, so that its source no longer plays and is no
  longer the current source and no connection leaves any of its nodes, and its other
  nodes, the old gain among them, are left as they were. When the selected
  profile is not off, a new graph is then built for it: the new source and the new nodes
  are fresh objects, none of them a node of the old graph, and the last stage is a new
  gain node holding the new volume over 100. When the selected profile is off (a graph
  left playing by a call that resumed after the profile was switched off), nothing is
  built: no graph, nothing connected, nothing playing. Setting the volume to the value it
  has changes nothing.
\<close>

theorem volume_change_rebuilds:
  "(source (snd (session raw r rate blocked es)) \<noteq> None \<and>
    v \<noteq> volume (fst (session raw r rate blocked es)) \<longrightarrow>
      source (snd (setVolume v (session raw r rate blocked es))) \<noteq>
        source (snd (session raw r rate blocked es)) \<and>
      (n \<in> set (nodes (snd (session raw r rate blocked es))) \<and>
       source (snd (session raw r rate blocked es)) \<noteq> Some n \<longrightarrow>
         heap (snd (setVolume v (session raw r rate blocked es))) n =
           heap (snd (session raw r rate blocked es)) n) \<and>
      (n \<in> set (nodes (snd (session raw r rate blocked es))) \<longrightarrow>
         n \<notin> fst ` set (edges (snd (setVolume v (session raw r rate blocked es))))) \<and>
      (source (snd (session raw r rate blocked es)) = Some n \<longrightarrow>
         \<not> is_playing (snd (setVolume v (session raw r rate blocked es))) n) \<and>
      (ambient (fst (session raw r rate blocked es)) \<noteq> Off \<longrightarrow>
         snd (setVolume v (session raw r rate blocked es)) =
           build_graph (ambient (fst (session raw r rate blocked es))) v
             (stopAmbient (snd (session raw r rate blocked es))) \<and>
         source (snd (setVolume v (session raw r rate blocked es))) =
           Some (next_id (snd (session raw r rate blocked es)) + 1) \<and>
         set (nodes (snd (setVolume v (session raw r rate blocked es)))) \<inter>
           set (nodes (snd (session raw r rate blocked es))) = {} \<and>
         last (stages (snd (setVolume v (session raw r rate blocked es)))) =
           Some (GainNode (js_div v 100))) \<and>
      (ambient (fst (session raw r rate blocked es)) = Off \<longrightarrow>
         snd (setVolume v (session raw r rate blocked es)) =
           stopAmbient (snd (session raw r rate blocked es)) \<and>
         source (snd (setVolume v (session raw r rate blocked es))) = None \<and>
         nodes (snd (setVolume v (session raw r rate blocked es))) = [] \<and>
         to_destination (snd (setVolume v (session raw r rate blocked es))) = [] \<and>
         playing (snd (setVolume v (session raw r rate blocked es))) = [])) \<and>
   (v = volume (fst (session raw r rate blocked es)) \<longrightarrow>
      setVolume v (session raw r rate blocked es) = session raw r rate blocked es)"
  by (rule volume_change_aux[OF session_ok session_ctx_ok])









lemma white_session_facts:
  "source (snd white_session) = Some 1" "ambient (fst white_session) = White"
  "ctx (snd white_session) = Some Running" "volume (fst white_session) = Fin 40"
  "nodes (snd white_session) = [1, 2]"
  by (simp_all add: white_session_def session_eval)

lemma ghost_session_facts:
  "source (snd ghost_session) = Some 1" "ambient (fst ghost_session) = Off"
  "volume (fst ghost_session) = Fin 40" "nodes (snd ghost_session) = [1, 3, 4, 2]"
  "to_destination (snd ghost_session) = [(2, Destination)]"
  by (simp_all add: ghost_session_def session_eval resume_settled_def to_destination_def)

theorem one_graph_at_a_time_witness:
  "Forest \<noteq> ambient (fst rain_session) \<and> ctx (snd rain_session) = Some Running \<and>
   snd (setAmbient Forest rain_session) =
     build_graph Forest (volume (fst rain_session)) (stopAmbient (snd rain_session)) \<and>
   to_destination (startAmbient_rest Forest (Fin 40) (snd rain_session)) =
     [(next_id (snd rain_session) + 2, Destination)] \<and>
   playing (startAmbient_rest Forest (Fin 40) (snd rain_session)) =
     [next_id (snd rain_session) + 1] \<and>
   ambient (fst rain_session) \<noteq> Off \<and>
   snd (setAmbient Off rain_session) = stopAmbient (snd rain_session)"
proof -
  note t = one_graph_at_a_time
             [of Absent "\<lambda>n. 1 / 4" 2 False "[ClickAmbient Rain]" Forest "Fin 40",
              folded rain_session_def]
  have h1: "Forest \<noteq> Off" by simp
  have h2: "Forest \<noteq> ambient (fst rain_session) \<and> Forest \<noteq> Off \<and>
            ctx (snd rain_session) = Some Running"
    by (simp add: rain_session_facts)
  have h3: "ambient (fst rain_session) \<noteq> Off" by (simp add: rain_session_facts)
  from t h1 h2 h3 show ?thesis by blast
qed

theorem volume_change_rebuilds_witness:
  "source (snd white_session) \<noteq> None \<and> Fin 50 \<noteq> volume (fst white_session) \<and>
   ambient (fst white_session) \<noteq> Off \<and>
   2 \<in> set (nodes (snd white_session)) \<and> source (snd white_session) \<noteq> Some 2 \<and>
   source (snd (setVolume (Fin 50) white_session)) \<noteq> source (snd white_session) \<and>
   set (nodes (snd (setVolume (Fin 50) white_session))) \<inter> set (nodes (snd white_session)) = {} \<and>
   last (stages (snd (setVolume (Fin 50) white_session))) = Some (GainNode (js_div (Fin 50) 100)) \<and>
   heap (snd (setVolume (Fin 50) white_session)) 2 = heap (snd white_session) 2 \<and>
   2 \<notin> fst ` set (edges (snd (setVolume (Fin 50) white_session))) \<and>
   source (snd white_session) = Some 1 \<and>
   \<not> is_playing (snd (setVolume (Fin 50) white_session)) 1 \<and>
   source (snd ghost_session) \<noteq> None \<and> Fin 50 \<noteq> volume (fst ghost_session) \<and>
   ambient (fst ghost_session) = Off \<and>
   snd (setVolume (Fin 50) ghost_session) = stopAmbient (snd ghost_session) \<and>
   source (snd (setVolume (Fin 50) ghost_session)) = None \<and>
   to_destination (snd (setVolume (Fin 50) ghost_session)) = [] \<and>
   playing (snd (setVolume (Fin 50) ghost_session)) = []"
proof -
  note t = volume_change_rebuilds
             [of Absent "\<lambda>n. 1 / 4" 2 False "[ClickAmbient White]" "Fin 50" 2,
              folded white_session_def]
  note g = volume_change_rebuilds
             [of Absent "\<lambda>n. 1 / 4" 2 True "[ClickAmbient Rain, ClickAmbient Off, ResumeSettled]"
                 "Fin 50" 2,
              folded ghost_session_def]
  have h1: "source (snd white_session) \<noteq> None \<and> Fin 50 \<noteq> volume (fst white_session)"
    by (simp add: white_session_facts)
  have h2: "2 \<in> set (nodes (snd white_session)) \<and> source (snd white_session) \<noteq> Some 2"
    by (simp add: white_session_facts)
  have h3: "ambient (fst white_session) \<noteq> Off" by (simp add: white_session_facts)
  have h4: "source (snd ghost_session) \<noteq> None \<and> Fin 50 \<noteq> volume (fst ghost_session)"
    by (simp add: ghost_session_facts)
  have h5: "ambient (fst ghost_session) = Off" by (simp add: ghost_session_facts)
  have w: "source (snd (setVolume (Fin 50) white_session)) \<noteq> source (snd white_session) \<and>
   set (nodes (snd (setVolume (Fin 50) white_session))) \<inter> set (nodes (snd white_session)) = {} \<and>
   last (stages (snd (setVolume (Fin 50) white_session))) = Some (GainNode (js_div (Fin 50) 100)) \<and>
   heap (snd (setVolume (Fin 50) white_session)) 2 = heap (snd white_session) 2 \<and>
   2 \<notin> fst ` set (edges (snd (setVolume (Fin 50) white_session)))"
    using t h1 h2 h3 by blast
  note t1 = volume_change_rebuilds
             [of Absent "\<lambda>n. 1 / 4" 2 False "[ClickAmbient White]" "Fin 50" 1,
              folded white_session_def]
  have h6: "source (snd white_session) = Some 1" by (simp add: white_session_facts)
  have w1: "\<not> is_playing (snd (setVolume (Fin 50) white_session)) 1"
    using t1 h1 h6 by blast
  have gh: "snd (setVolume (Fin 50) ghost_session) = stopAmbient (snd ghost_session) \<and>
   source (snd (setVolume (Fin 50) ghost_session)) = None \<and>
   to_destination (snd (setVolume (Fin 50) ghost_session)) = [] \<and>
   playing (snd (setVolume (Fin 50) ghost_session)) = []"
    using g h4 h5 by blast
  from w w1 gh h1 h2 h3 h4 h5 h6 show ?thesis by blast
qed

text \<open>
  The claim as stated fails: with white noise playing at volume 40 (source 1, gain 2),
  moving the slider to 50 gives source 4 and gain 5; gain node 2 still holds 0.4.
\<close>

theorem volume_in_place_counterexample:
  "source (snd white_session) = Some 1 \<and>
   nodes (snd white_session) = [1, 2] \<and>
   heap (snd white_session) 2 = Some (GainNode (Fin (2 / 5))) \<and>
   source (snd (setVolume (Fin 50) white_session)) = Some 4 \<and>
   nodes (snd (setVolume (Fin 50) white_session)) = [4, 5] \<and>
   heap (snd (setVolume (Fin 50) white_session)) 2 = Some (GainNode (Fin (2 / 5))) \<and>
   heap (snd (setVolume (Fin 50) white_session)) 5 = Some (GainNode (Fin (1 / 2)))"
  by (simp add: white_session_def session_eval js_div_def)


end
